theory Spec2Isabelle
  imports Complex_Main "HOL-Library.Sublist"
begin

section \<open>Python strings\<close>

text \<open>
  A Python \<open>str\<close> is a sequence of code points. The model reads a HOL character as
  the code point of the same number, U+0000 to U+00FF, and a string as the list of its
  code points. On this range \<open>str.lower\<close>, \<open>str.strip\<close> and \<open>str.isdigit\<close> are
  the functions below: \<open>lower\<close> moves A to Z and the capital letters U+00C0 to U+00DE
  (the multiplication sign U+00D7 apart) up by 32 and keeps the length; the characters
  \<open>strip\<close> removes are U+0009 to U+000D, U+001C to U+0020, U+0085 and U+00A0; the
  characters \<open>isdigit\<close> accepts are 0 to 9 and the superscripts U+00B2, U+00B3, U+00B9.
\<close>

definition code_point :: "char \<Rightarrow> nat" where
  "code_point c = of_char c"

definition isspace_char :: "char \<Rightarrow> bool" where
  "isspace_char c =
     (let n = code_point c
      in (9 \<le> n \<and> n \<le> 13) \<or> (28 \<le> n \<and> n \<le> 32) \<or> n = 133 \<or> n = 160)"

definition isdigit_char :: "char \<Rightarrow> bool" where
  "isdigit_char c =
     (let n = code_point c
      in (48 \<le> n \<and> n \<le> 57) \<or> n = 178 \<or> n = 179 \<or> n = 185)"

definition lower_char :: "char \<Rightarrow> char" where
  "lower_char c =
     (let n = code_point c
      in if (65 \<le> n \<and> n \<le> 90) \<or> (192 \<le> n \<and> n \<le> 222 \<and> n \<noteq> 215)
         then char_of (n + 32) else c)"

definition lower :: "string \<Rightarrow> string" where
  "lower s = map lower_char s"

definition strip :: "string \<Rightarrow> string" where
  "strip s = rev (dropWhile isspace_char (rev (dropWhile isspace_char s)))"

definition isdigit :: "string \<Rightarrow> bool" where
  "isdigit s = (s \<noteq> [] \<and> list_all isdigit_char s)"

text \<open>\<open>startswith s sub\<close> is \<open>s.startswith(sub)\<close> and \<open>contains s sub\<close> is \<open>sub in s\<close>.\<close>

fun startswith :: "string \<Rightarrow> string \<Rightarrow> bool" where
  "startswith s [] = True"
| "startswith [] (d # sub) = False"
| "startswith (c # s) (d # sub) = (c = d \<and> startswith s sub)"

fun contains :: "string \<Rightarrow> string \<Rightarrow> bool" where
  "contains [] sub = (sub = [])"
| "contains (c # s) sub = (startswith (c # s) sub \<or> contains s sub)"

text \<open>
  \<open>split_first s\<close> is \<open>s.split(" ", 1)\<close>: the string cut at its first space, or the
  string alone when it has no space.
\<close>

definition split_first :: "string \<Rightarrow> string list" where
  "split_first s =
     (if CHR '' '' \<in> set s
      then [takeWhile (\<lambda>c. c \<noteq> CHR '' '') s, tl (dropWhile (\<lambda>c. c \<noteq> CHR '' '') s)]
      else [s])"

section \<open>JSON values\<close>

text \<open>
  What \<open>json.load\<close> and \<open>response.json()\<close> return: \<open>None\<close>, a bool, an int, a
  float (its finite value), a str, a list, or a dict. A dict is the list of the members
  of the JSON object in the order of the text; a later member replaces an earlier one of
  the same key, so a lookup reads the last one.
\<close>

datatype json =
    JNull
  | JBool bool
  | JInt int
  | JFloat rat
  | JStr string
  | JArr "json list"
  | JObj "(string \<times> json) list"

fun truthy :: "json \<Rightarrow> bool" where
  "truthy JNull = False"
| "truthy (JBool b) = b"
| "truthy (JInt i) = (i \<noteq> 0)"
| "truthy (JFloat x) = (x \<noteq> 0)"
| "truthy (JStr s) = (s \<noteq> [])"
| "truthy (JArr xs) = (xs \<noteq> [])"
| "truthy (JObj kv) = (kv \<noteq> [])"

definition dict_get :: "(string \<times> json) list \<Rightarrow> string \<Rightarrow> json \<Rightarrow> json" where
  "dict_get kv k d = (case map_of (rev kv) k of None \<Rightarrow> d | Some v \<Rightarrow> v)"

section \<open>Exceptions and effects\<close>

text \<open>
  Every exception the handlers can raise. An \<open>HTTPException\<close> carries its status code
  and detail; a detail built by an f-string keeps its arguments. An exception that leaves
  a handler and is not an \<open>HTTPException\<close> is answered by the framework with status 500.
\<close>

datatype detail =
    Text string
  | FMCSA_API_error int string
  | Error_connecting string
  | Unexpected_error exn
and exn =
    HTTPException int detail
  | AttributeError
  | TypeError
  | JSONDecodeError
  | ValidationError
  | OSError
  | TimeoutException
  | RequestError string
  | Other_exception string

datatype line =
    Warning_not_found string
  | Loaded_loads nat string
  | Error_loading string exn
  | After_origin_filter string nat
  | After_destination_filter string nat
  | After_equipment_type_filter string nat
  | No_loads_found "string option" "string option" "string option"
  | Returning_loads nat
  | Debug_calling string
  | Debug_api_key string
  | Debug_response_status int
  | Debug_response_body string
  | Error_request string
  | Error_unexpected exn
  | Traceback exn

text \<open>
  The trace of a call lists what it did to the world, in order: a test for a path, an
  attempt to open a file, a GET request with its URL and query parameters, a printed line.
\<close>

datatype event =
    Path_exists string
  | Open_file string
  | Http_get string "(string \<times> string) list"
  | Print line

section \<open>Configuration\<close>

record config =
  API_KEY :: string
  FMCSA_API_KEY :: string

definition LOADS_FILE :: string where
  "LOADS_FILE = ''loads.json''"

definition FMCSA_API_BASE :: string where
  "FMCSA_API_BASE = ''https://mobile.fmcsa.dot.gov/qc/services''"

definition getenv :: "(string \<rightharpoonup> string) \<Rightarrow> string \<Rightarrow> string \<Rightarrow> string" where
  "getenv environ name d = (case environ name of None \<Rightarrow> d | Some v \<Rightarrow> v)"

text \<open>The module-level configuration, read once from the environment when the module loads.\<close>

definition load_config :: "(string \<rightharpoonup> string) \<Rightarrow> config" where
  "load_config environ =
     \<lparr>API_KEY = getenv environ ''HAPPYROBOT_API_KEY'' '''',
      FMCSA_API_KEY = getenv environ ''FMCSA_API_KEY'' ''''\<rparr>"

section \<open>Authentication gate\<close>

definition verify_api_key :: "config \<Rightarrow> string option \<Rightarrow> exn + unit" where
  "verify_api_key cfg authorization =
     (case authorization of
        None \<Rightarrow> Inl (HTTPException 403 (Text ''Missing Authorization header''))
      | Some a \<Rightarrow>
          if a = [] then Inl (HTTPException 403 (Text ''Missing Authorization header''))
          else
            (let parts = split_first a
             in if length parts \<noteq> 2 \<or> parts ! 0 \<noteq> ''ApiKey''
                then Inl (HTTPException 403
                       (Text ''Invalid Authorization format. Expected: ApiKey <key>''))
                else
                  (let api_key = parts ! 1
                   in if api_key \<noteq> API_KEY cfg
                      then Inl (HTTPException 403 (Text ''Invalid API Key''))
                      else Inr ())))"

section \<open>Load catalog loader\<close>

text \<open>
  The state of the file \<open>loads.json\<close> when a request reads it: not there, there but
  failing to open, there but not JSON, or holding a JSON value.
\<close>

datatype loads_file = Missing | Unreadable | Not_JSON | Contents json

definition py_len :: "json \<Rightarrow> exn + nat" where
  "py_len v =
     (case v of
        JStr s \<Rightarrow> Inr (length s)
      | JArr xs \<Rightarrow> Inr (length xs)
      | JObj kv \<Rightarrow> Inr (length (remdups (map fst kv)))
      | _ \<Rightarrow> Inl TypeError)"

definition path_exists :: "loads_file \<Rightarrow> bool" where
  "path_exists file = (case file of Missing \<Rightarrow> False | _ \<Rightarrow> True)"

text \<open>
  The body of the \<open>try\<close> (lines 83 to 86): open the file, parse it, print the number
  of loads, return them. Each of the three can raise.
\<close>

definition read_loads :: "loads_file \<Rightarrow> (exn + json) \<times> event list" where
  "read_loads file =
     (case file of
        Missing \<Rightarrow> (Inl OSError, [Open_file LOADS_FILE])
      | Unreadable \<Rightarrow> (Inl OSError, [Open_file LOADS_FILE])
      | Not_JSON \<Rightarrow> (Inl JSONDecodeError, [Open_file LOADS_FILE])
      | Contents loads \<Rightarrow>
          (case py_len loads of
             Inl e \<Rightarrow> (Inl e, [Open_file LOADS_FILE])
           | Inr n \<Rightarrow>
               (Inr loads, [Open_file LOADS_FILE, Print (Loaded_loads n LOADS_FILE)])))"

definition load_loads_from_file :: "loads_file \<Rightarrow> (exn + json) \<times> event list" where
  "load_loads_from_file file =
     (if \<not> path_exists file
      then (Inr (JArr []), [Path_exists LOADS_FILE, Print (Warning_not_found LOADS_FILE)])
      else
        (case read_loads file of
           (Inl e, t) \<Rightarrow>
             (Inr (JArr []), Path_exists LOADS_FILE # t @ [Print (Error_loading LOADS_FILE e)])
         | (Inr loads, t) \<Rightarrow> (Inr loads, Path_exists LOADS_FILE # t)))"

text \<open>The root endpoint; of its answer the model keeps \<open>loads_available\<close>.\<close>

definition root :: "loads_file \<Rightarrow> (exn + nat) \<times> event list" where
  "root file =
     (case load_loads_from_file file of
        (Inl e, t) \<Rightarrow> (Inl e, t)
      | (Inr loads, t) \<Rightarrow> (py_len loads, t))"

section \<open>Load search\<close>

text \<open>
  A list comprehension with a condition that can raise: the first record whose condition
  raises ends the comprehension with that exception.
\<close>

fun filter_loads :: "(json \<Rightarrow> exn + bool) \<Rightarrow> json list \<Rightarrow> exn + json list" where
  "filter_loads p [] = Inr []"
| "filter_loads p (x # xs) =
     (case p x of
        Inl e \<Rightarrow> Inl e
      | Inr b \<Rightarrow>
          (case filter_loads p xs of
             Inl e \<Rightarrow> Inl e
           | Inr ys \<Rightarrow> Inr (if b then x # ys else ys)))"

text \<open>\<open>field_lower load key\<close> is \<open>load.get(key, "").lower()\<close>.\<close>

definition field_lower :: "json \<Rightarrow> string \<Rightarrow> exn + string" where
  "field_lower load key =
     (case load of
        JObj kv \<Rightarrow>
          (case dict_get kv key (JStr []) of
             JStr s \<Rightarrow> Inr (lower s)
           | _ \<Rightarrow> Inl AttributeError)
      | _ \<Rightarrow> Inl AttributeError)"

text \<open>The conditions of the three comprehensions, for a query already lowered and stripped.\<close>

definition origin_cond :: "string \<Rightarrow> json \<Rightarrow> exn + bool" where
  "origin_cond origin_lower load =
     (case field_lower load ''origin'' of
        Inl e \<Rightarrow> Inl e
      | Inr s \<Rightarrow> Inr (contains s origin_lower))"

definition destination_cond :: "string \<Rightarrow> json \<Rightarrow> exn + bool" where
  "destination_cond destination_lower load =
     (case field_lower load ''destination'' of
        Inl e \<Rightarrow> Inl e
      | Inr s \<Rightarrow> Inr (contains s destination_lower))"

definition equipment_type_cond :: "string \<Rightarrow> json \<Rightarrow> exn + bool" where
  "equipment_type_cond equipment_lower load =
     (case field_lower load ''equipment_type'' of
        Inl e \<Rightarrow> Inl e
      | Inr s \<Rightarrow> Inr (s = equipment_lower))"

definition origin_filter :: "string \<Rightarrow> json list \<Rightarrow> exn + json list" where
  "origin_filter origin results =
     (let origin_lower = strip (lower origin)
      in filter_loads (origin_cond origin_lower) results)"

definition destination_filter :: "string \<Rightarrow> json list \<Rightarrow> exn + json list" where
  "destination_filter destination results =
     (let destination_lower = strip (lower destination)
      in filter_loads (destination_cond destination_lower) results)"

definition equipment_type_filter :: "string \<Rightarrow> json list \<Rightarrow> exn + json list" where
  "equipment_type_filter equipment_type results =
     (let equipment_lower = strip (lower equipment_type)
      in filter_loads (equipment_type_cond equipment_lower) results)"

text \<open>\<open>supplied q\<close> is the truth value of an optional query parameter in \<open>if q:\<close>.\<close>

definition supplied :: "string option \<Rightarrow> bool" where
  "supplied q = (case q of None \<Rightarrow> False | Some s \<Rightarrow> s \<noteq> [])"

definition origin_step ::
  "string option \<Rightarrow> json list \<Rightarrow> event list \<Rightarrow> (exn + json list) \<times> event list" where
  "origin_step origin results t =
     (case origin of
        None \<Rightarrow> (Inr results, t)
      | Some q \<Rightarrow>
          if q = [] then (Inr results, t)
          else
            (case origin_filter q results of
               Inl e \<Rightarrow> (Inl e, t)
             | Inr rs \<Rightarrow> (Inr rs, t @ [Print (After_origin_filter q (length rs))])))"

definition destination_step ::
  "string option \<Rightarrow> json list \<Rightarrow> event list \<Rightarrow> (exn + json list) \<times> event list" where
  "destination_step destination results t =
     (case destination of
        None \<Rightarrow> (Inr results, t)
      | Some q \<Rightarrow>
          if q = [] then (Inr results, t)
          else
            (case destination_filter q results of
               Inl e \<Rightarrow> (Inl e, t)
             | Inr rs \<Rightarrow> (Inr rs, t @ [Print (After_destination_filter q (length rs))])))"

definition equipment_type_step ::
  "string option \<Rightarrow> json list \<Rightarrow> event list \<Rightarrow> (exn + json list) \<times> event list" where
  "equipment_type_step equipment_type results t =
     (case equipment_type of
        None \<Rightarrow> (Inr results, t)
      | Some q \<Rightarrow>
          if q = [] then (Inr results, t)
          else
            (case equipment_type_filter q results of
               Inl e \<Rightarrow> (Inl e, t)
             | Inr rs \<Rightarrow> (Inr rs, t @ [Print (After_equipment_type_filter q (length rs))])))"

text \<open>\<open>slice_to xs n\<close> is \<open>xs[:n]\<close>; a negative \<open>n\<close> counts from the end.\<close>

definition slice_to :: "'a list \<Rightarrow> int \<Rightarrow> 'a list" where
  "slice_to xs n =
     (if 0 \<le> n then take (nat n) xs else take (nat (int (length xs) + n)) xs)"

text \<open>
  The declaration of \<open>max_results\<close>, \<open>Query(5, ge=1, le=20)\<close>: the value when the
  parameter is left out, and the range the framework admits before it calls the handler.
\<close>

definition max_results_default :: int where
  "max_results_default = 5"

definition max_results_valid :: "int \<Rightarrow> bool" where
  "max_results_valid n = (1 \<le> n \<and> n \<le> 20)"

text \<open>
  The filters and the cap over a catalog that is a list (lines 273 to 310 of the handler).
\<close>

definition filter_and_limit ::
  "json list \<Rightarrow> string option \<Rightarrow> string option \<Rightarrow> string option \<Rightarrow> int \<Rightarrow> event list
     \<Rightarrow> (exn + json list) \<times> event list" where
  "filter_and_limit results origin destination equipment_type max_results t0 =
     (case origin_step origin results t0 of
        (Inl e, t1) \<Rightarrow> (Inl e, t1)
      | (Inr r1, t1) \<Rightarrow>
     (case destination_step destination r1 t1 of
        (Inl e, t2) \<Rightarrow> (Inl e, t2)
      | (Inr r2, t2) \<Rightarrow>
     (case equipment_type_step equipment_type r2 t2 of
        (Inl e, t3) \<Rightarrow> (Inl e, t3)
      | (Inr r3, t3) \<Rightarrow>
          if r3 = []
          then (Inr [], t3 @ [Print (No_loads_found origin destination equipment_type)])
          else
            (let r = slice_to r3 max_results
             in (Inr r, t3 @ [Print (Returning_loads (length r))])))))"

text \<open>
  The handler. A catalog that is not a list: a dict has \<open>copy\<close>, its iteration yields its
  keys, which have no \<open>get\<close>, and it cannot be sliced (\<open>TypeError\<close>; \<open>KeyError\<close> from
  Python 3.12 on); any other value has no \<open>copy\<close>.
\<close>

definition search_loads ::
  "config \<Rightarrow> loads_file \<Rightarrow> string option \<Rightarrow> string option \<Rightarrow> string option \<Rightarrow> int
     \<Rightarrow> string option \<Rightarrow> (exn + json list) \<times> event list" where
  "search_loads cfg file origin destination equipment_type max_results authorization =
     (case verify_api_key cfg authorization of
        Inl e \<Rightarrow> (Inl e, [])
      | Inr u \<Rightarrow>
          (case load_loads_from_file file of
             (Inl e, t0) \<Rightarrow> (Inl e, t0)
           | (Inr all_loads, t0) \<Rightarrow>
               if \<not> truthy all_loads then (Inr [], t0)
               else
                 (case all_loads of
                    JArr results \<Rightarrow>
                      filter_and_limit results origin destination equipment_type max_results t0
                  | JObj kv \<Rightarrow>
                      if supplied origin \<or> supplied destination \<or> supplied equipment_type
                      then (Inl AttributeError, t0)
                      else (Inl TypeError, t0)
                  | _ \<Rightarrow> (Inl AttributeError, t0))))"

section \<open>Carrier verification\<close>

record CarrierVerificationResponse =
  mc_number :: string
  is_eligible :: bool
  company_name :: "string option"
  safety_rating :: "string option"
  operating_status :: "string option"
  message :: string

text \<open>
  What \<open>await client.get(url, params=params)\<close> gives: an exception, or a response with
  its status code, its text, and the value of \<open>response.json()\<close> (\<open>None\<close> when the text
  is not JSON, where \<open>json()\<close> raises).
\<close>

datatype reply = Raises exn | Response int string "json option"

text \<open>
  The validation of an \<open>Optional[str]\<close> field of the response model. \<open>None\<close> and a str
  pass as they are. What the library does with any other value depends on its version
  (it may convert a number, or refuse): \<open>coerce\<close> stands for that, \<open>None\<close> for a refusal.
\<close>

definition optional_str :: "(json \<Rightarrow> string option) \<Rightarrow> json \<Rightarrow> exn + string option" where
  "optional_str coerce v =
     (case v of
        JNull \<Rightarrow> Inr None
      | JStr s \<Rightarrow> Inr (Some s)
      | _ \<Rightarrow> (case coerce v of None \<Rightarrow> Inl ValidationError | Some s \<Rightarrow> Inr (Some s)))"

text \<open>Lines 203 to 232: the verdict from the carrier dict.\<close>

definition carrier_verdict ::
  "(json \<Rightarrow> string option) \<Rightarrow> string \<Rightarrow> (string \<times> json) list
     \<Rightarrow> exn + CarrierVerificationResponse" where
  "carrier_verdict coerce mc carrier =
     (let legal_name = dict_get carrier ''legalName'' JNull;
          company = (if truthy legal_name then legal_name
                     else dict_get carrier ''dbaName'' (JStr ''Unknown''));
          allowed_to_operate = dict_get carrier ''allowedToOperate'' (JStr ''N'');
          rating = dict_get carrier ''safetyRating'' JNull;
          oos_date = dict_get carrier ''oosDate'' JNull;
          eligible = (allowed_to_operate = JStr ''Y'' \<and> oos_date = JNull);
          status = (if truthy oos_date then ''Out of Service''
                    else if allowed_to_operate = JStr ''Y'' then ''Active''
                    else ''Not Authorized'');
          msg = ''Carrier is '' @ (if eligible then ''eligible'' else ''not eligible'')
                  @ '' to operate''
      in case optional_str coerce company of
           Inl e \<Rightarrow> Inl e
         | Inr cn \<Rightarrow>
             (case optional_str coerce rating of
                Inl e \<Rightarrow> Inl e
              | Inr sr \<Rightarrow>
                  Inr \<lparr>mc_number = mc, is_eligible = eligible, company_name = cn,
                       safety_rating = sr, operating_status = Some status,
                       message = msg\<rparr>))"

definition not_eligible :: "string \<Rightarrow> string \<Rightarrow> CarrierVerificationResponse" where
  "not_eligible mc msg =
     \<lparr>mc_number = mc, is_eligible = False, company_name = None, safety_rating = None,
      operating_status = None, message = msg\<rparr>"

text \<open>Lines 165 to 232: what the body of the \<open>try\<close> does with a response.\<close>

definition interpret_response ::
  "(json \<Rightarrow> string option) \<Rightarrow> string \<Rightarrow> int \<Rightarrow> string \<Rightarrow> json option
     \<Rightarrow> exn + CarrierVerificationResponse" where
  "interpret_response coerce mc status txt body =
     (if status = 404 then Inr (not_eligible mc ''Carrier not found in FMCSA database'')
      else if status = 401 then Inl (HTTPException 500 (Text ''Invalid FMCSA API key''))
      else if status \<noteq> 200
      then Inl (HTTPException 500 (FMCSA_API_error status (take 200 txt)))
      else
        (case body of
           None \<Rightarrow> Inl JSONDecodeError
         | Some (JObj data) \<Rightarrow>
             (let content = dict_get data ''content'' (JObj [])
              in if \<not> truthy content
                 then Inr (not_eligible mc ''Carrier not found in FMCSA database'')
                 else
                   (case content of
                      JObj c \<Rightarrow>
                        (let carrier = dict_get c ''carrier'' (JObj [])
                         in if \<not> truthy carrier
                            then Inr (not_eligible mc ''Carrier information not available'')
                            else
                              (case carrier of
                                 JObj kv \<Rightarrow> carrier_verdict coerce mc kv
                               | _ \<Rightarrow> Inl AttributeError))
                    | _ \<Rightarrow> Inl AttributeError))
         | Some _ \<Rightarrow> Inl AttributeError))"

text \<open>The three \<open>except\<close> clauses, in their order.\<close>

definition handle_exception ::
  "exn \<Rightarrow> event list \<Rightarrow> (exn + CarrierVerificationResponse) \<times> event list" where
  "handle_exception e t =
     (case e of
        TimeoutException \<Rightarrow>
          (Inl (HTTPException 504 (Text ''FMCSA API request timed out'')), t)
      | RequestError s \<Rightarrow>
          (Inl (HTTPException 500 (Error_connecting s)), t @ [Print (Error_request s)])
      | _ \<Rightarrow>
          (Inl (HTTPException 500 (Unexpected_error e)),
           t @ [Print (Error_unexpected e), Print (Traceback e)]))"

text \<open>Lines 150 to 243: the request to the registry, inside the \<open>try\<close>.\<close>

definition call_fmcsa ::
  "config \<Rightarrow> (json \<Rightarrow> string option) \<Rightarrow> (string \<Rightarrow> (string \<times> string) list \<Rightarrow> reply)
     \<Rightarrow> string \<Rightarrow> (exn + CarrierVerificationResponse) \<times> event list" where
  "call_fmcsa cfg coerce client_get mc =
     (let url = FMCSA_API_BASE @ ''/carriers/'' @ mc;
          params = [(''webKey'', FMCSA_API_KEY cfg)];
          t0 = [Print (Debug_calling url),
                Print (Debug_api_key (take 10 (FMCSA_API_KEY cfg))),
                Http_get url params]
      in case client_get url params of
           Raises e \<Rightarrow> handle_exception e t0
         | Response status txt body \<Rightarrow>
             (let t1 = t0 @ [Print (Debug_response_status status),
                             Print (Debug_response_body (take 500 txt))]
              in case interpret_response coerce mc status txt body of
                   Inl e \<Rightarrow> handle_exception e t1
                 | Inr v \<Rightarrow> (Inr v, t1)))"

definition verify_carrier ::
  "config \<Rightarrow> (json \<Rightarrow> string option) \<Rightarrow> (string \<Rightarrow> (string \<times> string) list \<Rightarrow> reply)
     \<Rightarrow> string \<Rightarrow> string option \<Rightarrow> (exn + CarrierVerificationResponse) \<times> event list" where
  "verify_carrier cfg coerce client_get mc_number0 authorization =
     (case verify_api_key cfg authorization of
        Inl e \<Rightarrow> (Inl e, [])
      | Inr u \<Rightarrow>
          (let mc = strip mc_number0
           in if \<not> isdigit mc
              then (Inr (not_eligible mc ''Invalid MC number format''), [])
              else if FMCSA_API_KEY cfg = []
              then (Inl (HTTPException 500 (Text
                      ''FMCSA API key not configured. Set FMCSA_API_KEY environment variable.'')),
                    [])
              else call_fmcsa cfg coerce client_get mc))"

section \<open>The filters as the specification words them\<close>

text \<open>
  \<open>field_text r key\<close> is the text of a field of a load record, empty when the record
  has no such key; there is none when the record is not a dict or the value is not a str.
\<close>

definition field_text :: "json \<Rightarrow> string \<Rightarrow> string option" where
  "field_text r key =
     (case r of
        JObj kv \<Rightarrow> (case dict_get kv key (JStr []) of JStr s \<Rightarrow> Some s | _ \<Rightarrow> None)
      | _ \<Rightarrow> None)"

text \<open>
  Case-insensitive containment of the trimmed query in a field, and case-insensitive
  equality of a field with the trimmed query.
\<close>

definition field_contains :: "string \<Rightarrow> string \<Rightarrow> json \<Rightarrow> bool" where
  "field_contains key q r =
     (case field_text r key of
        None \<Rightarrow> False
      | Some s \<Rightarrow> contains (lower s) (strip (lower q)))"

definition field_equals :: "string \<Rightarrow> string \<Rightarrow> json \<Rightarrow> bool" where
  "field_equals key q r =
     (case field_text r key of
        None \<Rightarrow> False
      | Some s \<Rightarrow> lower s = strip (lower q))"

text \<open>
  A record matches a query when it passes every filter that is applied; a filter is
  applied when its parameter is given and not empty.
\<close>

definition matches :: "string option \<Rightarrow> string option \<Rightarrow> string option \<Rightarrow> json \<Rightarrow> bool" where
  "matches origin destination equipment_type r =
     ((case origin of None \<Rightarrow> True | Some q \<Rightarrow> q = [] \<or> field_contains ''origin'' q r) \<and>
      (case destination of None \<Rightarrow> True
       | Some q \<Rightarrow> q = [] \<or> field_contains ''destination'' q r) \<and>
      (case equipment_type of None \<Rightarrow> True
       | Some q \<Rightarrow> q = [] \<or> field_equals ''equipment_type'' q r))"

text \<open>A record the filters can read: a dict whose three filtered fields, where present, are strs.\<close>

definition readable :: "json \<Rightarrow> bool" where
  "readable r =
     (field_text r ''origin'' \<noteq> None \<and> field_text r ''destination'' \<noteq> None \<and>
      field_text r ''equipment_type'' \<noteq> None)"

text \<open>
  What a filter step hands to the next one, without the trace: the list unchanged when
  the parameter is omitted or empty, the filtered list (or the exception) otherwise.
\<close>

definition step_result ::
  "(string \<Rightarrow> json list \<Rightarrow> exn + json list) \<Rightarrow> string option \<Rightarrow> json list
     \<Rightarrow> exn + json list" where
  "step_result f param results =
     (case param of
        None \<Rightarrow> Inr results
      | Some q \<Rightarrow> if q = [] then Inr results else f q results)"

section \<open>Properties of the filters\<close>

lemma filter_loads_Inr:
  "filter_loads p xs = Inr ys \<Longrightarrow> ys = filter (\<lambda>x. p x = Inr True) xs"
  by (induction xs arbitrary: ys) (auto split: sum.splits if_splits)

lemma filter_loads_total:
  "\<forall>x\<in>set xs. \<exists>b. p x = Inr b \<Longrightarrow> filter_loads p xs = Inr (filter (\<lambda>x. p x = Inr True) xs)"
  by (induction xs) (auto split: sum.splits)

lemma field_lower_text:
  "field_lower r key = (case field_text r key of None \<Rightarrow> Inl AttributeError | Some s \<Rightarrow> Inr (lower s))"
  by (auto simp: field_lower_def field_text_def split: json.splits)

lemma origin_cond_True:
  "origin_cond (strip (lower q)) r = Inr True \<longleftrightarrow> field_contains ''origin'' q r"
  by (auto simp: origin_cond_def field_lower_text field_contains_def split: option.splits)

lemma destination_cond_True:
  "destination_cond (strip (lower q)) r = Inr True \<longleftrightarrow> field_contains ''destination'' q r"
  by (auto simp: destination_cond_def field_lower_text field_contains_def split: option.splits)

lemma equipment_type_cond_True:
  "equipment_type_cond (strip (lower q)) r = Inr True \<longleftrightarrow> field_equals ''equipment_type'' q r"
  by (auto simp: equipment_type_cond_def field_lower_text field_equals_def split: option.splits)

lemma origin_step_Inr:
  "origin_step origin xs t = (Inr rs, t') \<Longrightarrow>
   rs = filter (\<lambda>r. case origin of None \<Rightarrow> True | Some q \<Rightarrow> q = [] \<or> field_contains ''origin'' q r) xs"
  by (auto simp: origin_step_def origin_filter_def origin_cond_True
      dest!: filter_loads_Inr split: option.splits if_splits sum.splits)

lemma destination_step_Inr:
  "destination_step destination xs t = (Inr rs, t') \<Longrightarrow>
   rs = filter (\<lambda>r. case destination of None \<Rightarrow> True | Some q \<Rightarrow> q = [] \<or> field_contains ''destination'' q r) xs"
  by (auto simp: destination_step_def destination_filter_def destination_cond_True
      dest!: filter_loads_Inr split: option.splits if_splits sum.splits)

lemma equipment_type_step_Inr:
  "equipment_type_step equipment_type xs t = (Inr rs, t') \<Longrightarrow>
   rs = filter (\<lambda>r. case equipment_type of None \<Rightarrow> True | Some q \<Rightarrow> q = [] \<or> field_equals ''equipment_type'' q r) xs"
  by (auto simp: equipment_type_step_def equipment_type_filter_def equipment_type_cond_True
      dest!: filter_loads_Inr split: option.splits if_splits sum.splits)

lemma filter_and_limit_Inr:
  assumes "fst (filter_and_limit xs origin destination equipment_type n t) = Inr rs"
  shows "rs = slice_to (filter (matches origin destination equipment_type) xs) n"
proof -
  obtain a1 t1 where s1: "origin_step origin xs t = (a1, t1)" by (cases "origin_step origin xs t")
  show ?thesis
  proof (cases a1)
    case (Inl e) with assms s1 show ?thesis by (simp add: filter_and_limit_def)
  next
    case (Inr r1)
    note r1 = origin_step_Inr[OF s1[unfolded Inr]]
    obtain a2 t2 where s2: "destination_step destination r1 t1 = (a2, t2)"
      by (cases "destination_step destination r1 t1")
    show ?thesis
    proof (cases a2)
      case (Inl e) with assms s1 s2 \<open>a1 = Inr r1\<close> show ?thesis by (simp add: filter_and_limit_def)
    next
      case (Inr r2)
      note r2 = destination_step_Inr[OF s2[unfolded Inr]]
      obtain a3 t3 where s3: "equipment_type_step equipment_type r2 t2 = (a3, t3)"
        by (cases "equipment_type_step equipment_type r2 t2")
      show ?thesis
      proof (cases a3)
        case (Inl e) with assms s1 s2 s3 \<open>a1 = Inr r1\<close> \<open>a2 = Inr r2\<close> show ?thesis
          by (simp add: filter_and_limit_def)
      next
        case (Inr r3)
        note r3 = equipment_type_step_Inr[OF s3[unfolded Inr]]
        have m: "r3 = filter (matches origin destination equipment_type) xs"
          unfolding r3 r2 r1 matches_def by (simp add: conj_commute conj_left_commute cong: conj_cong)
        from assms s1 s2 s3 \<open>a1 = Inr r1\<close> \<open>a2 = Inr r2\<close> Inr
        have "rs = (if r3 = [] then [] else slice_to r3 n)"
          by (auto simp: filter_and_limit_def Let_def split: if_splits)
        then show ?thesis unfolding m by (auto simp: slice_to_def)
      qed
    qed
  qed
qed

lemma filter_loads_readable:
  assumes "\<forall>x\<in>set xs. \<exists>b. p x = Inr b"
  shows "\<exists>ys. filter_loads p xs = Inr ys \<and> set ys \<subseteq> set xs"
  using filter_loads_total[OF assms] by auto

lemma cond_readable:
  assumes "readable r"
  shows "\<exists>b. origin_cond q r = Inr b" "\<exists>b. destination_cond q r = Inr b"
    "\<exists>b. equipment_type_cond q r = Inr b"
  using assms
  by (auto simp: readable_def origin_cond_def destination_cond_def equipment_type_cond_def
      field_lower_text split: option.splits)

lemma origin_step_readable:
  assumes "\<forall>r\<in>set xs. readable r"
  shows "\<exists>ys t'. origin_step origin xs t = (Inr ys, t') \<and> set ys \<subseteq> set xs"
proof (cases "supplied origin")
  case False
  then show ?thesis by (auto simp: origin_step_def supplied_def split: option.splits)
next
  case True
  then obtain q where q: "origin = Some q" "q \<noteq> []"
    by (auto simp: supplied_def split: option.splits)
  have "\<forall>r\<in>set xs. \<exists>b. origin_cond (strip (lower q)) r = Inr b"
    using assms cond_readable(1) by blast
  from filter_loads_readable[OF this] obtain ys
    where "filter_loads (origin_cond (strip (lower q))) xs = Inr ys" "set ys \<subseteq> set xs" by blast
  then show ?thesis by (simp add: origin_step_def origin_filter_def q)
qed

lemma destination_step_readable:
  assumes "\<forall>r\<in>set xs. readable r"
  shows "\<exists>ys t'. destination_step destination xs t = (Inr ys, t') \<and> set ys \<subseteq> set xs"
proof (cases "supplied destination")
  case False
  then show ?thesis by (auto simp: destination_step_def supplied_def split: option.splits)
next
  case True
  then obtain q where q: "destination = Some q" "q \<noteq> []"
    by (auto simp: supplied_def split: option.splits)
  have "\<forall>r\<in>set xs. \<exists>b. destination_cond (strip (lower q)) r = Inr b"
    using assms cond_readable(2) by blast
  from filter_loads_readable[OF this] obtain ys
    where "filter_loads (destination_cond (strip (lower q))) xs = Inr ys" "set ys \<subseteq> set xs"
    by blast
  then show ?thesis by (simp add: destination_step_def destination_filter_def q)
qed

lemma equipment_type_step_readable:
  assumes "\<forall>r\<in>set xs. readable r"
  shows "\<exists>ys t'. equipment_type_step equipment_type xs t = (Inr ys, t') \<and> set ys \<subseteq> set xs"
proof (cases "supplied equipment_type")
  case False
  then show ?thesis by (auto simp: equipment_type_step_def supplied_def split: option.splits)
next
  case True
  then obtain q where q: "equipment_type = Some q" "q \<noteq> []"
    by (auto simp: supplied_def split: option.splits)
  have "\<forall>r\<in>set xs. \<exists>b. equipment_type_cond (strip (lower q)) r = Inr b"
    using assms cond_readable(3) by blast
  from filter_loads_readable[OF this] obtain ys
    where "filter_loads (equipment_type_cond (strip (lower q))) xs = Inr ys" "set ys \<subseteq> set xs"
    by blast
  then show ?thesis by (simp add: equipment_type_step_def equipment_type_filter_def q)
qed

lemma filter_and_limit_readable:
  assumes "\<forall>r\<in>set xs. readable r"
  shows "\<exists>rs. fst (filter_and_limit xs origin destination equipment_type n t) = Inr rs"
proof -
  obtain r1 t1 where s1: "origin_step origin xs t = (Inr r1, t1)" and 1: "set r1 \<subseteq> set xs"
    using origin_step_readable[OF assms] by blast
  from 1 assms have "\<forall>r\<in>set r1. readable r" by blast
  from destination_step_readable[OF this]
  obtain r2 t2 where s2: "destination_step destination r1 t1 = (Inr r2, t2)"
    and 2: "set r2 \<subseteq> set r1" by blast
  from 1 2 assms have "\<forall>r\<in>set r2. readable r" by blast
  from equipment_type_step_readable[OF this]
  obtain r3 t3 where s3: "equipment_type_step equipment_type r2 t2 = (Inr r3, t3)" by blast
  show ?thesis by (simp add: filter_and_limit_def s1 s2 s3 Let_def)
qed

section \<open>Properties of the authentication gate\<close>

lemma split_first_ApiKey: "split_first (''ApiKey '' @ k) = [''ApiKey'', k]"
  by (simp add: split_first_def)

lemma split_first_two:
  assumes "split_first a = [p, r]"
  shows "a = p @ '' '' @ r"
proof -
  from assms have m: "CHR '' '' \<in> set a" by (auto simp: split_first_def split: if_splits)
  with assms have p: "p = takeWhile (\<lambda>c. c \<noteq> CHR '' '') a"
    and r: "r = tl (dropWhile (\<lambda>c. c \<noteq> CHR '' '') a)"
    by (auto simp: split_first_def)
  from m have ne: "dropWhile (\<lambda>c. c \<noteq> CHR '' '') a \<noteq> []" by (simp add: dropWhile_eq_Nil_conv)
  then have "hd (dropWhile (\<lambda>c. c \<noteq> CHR '' '') a) = CHR '' ''"
    using hd_dropWhile[of "\<lambda>c. c \<noteq> CHR '' ''" a] by auto
  with ne have "dropWhile (\<lambda>c. c \<noteq> CHR '' '') a = CHR '' '' # r" unfolding r
    by (cases "dropWhile (\<lambda>c. c \<noteq> CHR '' '') a") auto
  then show ?thesis using takeWhile_dropWhile_id[of "\<lambda>c. c \<noteq> CHR '' ''" a] p by simp
qed

lemma split_first_length: "length (split_first a) = 2 \<Longrightarrow> \<exists>p r. split_first a = [p, r]"
  by (auto simp: split_first_def split: if_splits)

lemma verify_api_key_accepts:
  "verify_api_key cfg authorization = Inr () \<longleftrightarrow> authorization = Some (''ApiKey '' @ API_KEY cfg)"
proof
  assume "authorization = Some (''ApiKey '' @ API_KEY cfg)"
  then show "verify_api_key cfg authorization = Inr ()"
    using split_first_ApiKey[of "API_KEY cfg"] by (simp add: verify_api_key_def Let_def)
next
  assume ok: "verify_api_key cfg authorization = Inr ()"
  then obtain a where a: "authorization = Some a" "a \<noteq> []"
    by (auto simp: verify_api_key_def split: option.splits if_splits)
  with ok have l: "length (split_first a) = 2" and h: "split_first a ! 0 = ''ApiKey''"
    and k: "split_first a ! 1 = API_KEY cfg"
    by (auto simp: verify_api_key_def Let_def split: if_splits)
  from split_first_length[OF l] obtain p r where pr: "split_first a = [p, r]" by blast
  with h k have "p = ''ApiKey''" "r = API_KEY cfg" by auto
  with split_first_two[OF pr] a show "authorization = Some (''ApiKey '' @ API_KEY cfg)" by simp
qed

lemma verify_api_key_rejects:
  "verify_api_key cfg authorization \<noteq> Inr () \<Longrightarrow> \<exists>d. verify_api_key cfg authorization = Inl (HTTPException 403 d)"
  by (auto simp: verify_api_key_def Let_def split: option.splits if_splits)

section \<open>Properties of the string functions and of the filter steps\<close>

lemma lower_char_space: "isspace_char c \<Longrightarrow> lower_char c = c"
  by (auto simp: isspace_char_def lower_char_def Let_def)

lemma lower_blank: "\<forall>c\<in>set s. isspace_char c \<Longrightarrow> lower s = s"
  by (induction s) (auto simp: lower_def lower_char_space)

lemma strip_blank:
  assumes "\<forall>c\<in>set s. isspace_char c"
  shows "strip s = []"
proof -
  from assms have blank: "dropWhile isspace_char s = []" by (induction s) auto
  show ?thesis unfolding strip_def blank by simp
qed

lemma strip_lower_blank: "\<forall>c\<in>set s. isspace_char c \<Longrightarrow> strip (lower s) = []"
  by (simp add: lower_blank strip_blank)

lemma contains_Nil: "contains s []"
  by (cases s) auto

lemma startswith_iff: "startswith s sub \<longleftrightarrow> (\<exists>q. s = sub @ q)"
  by (induction s sub rule: startswith.induct) auto

lemma contains_iff: "contains s sub \<longleftrightarrow> (\<exists>p q. s = p @ sub @ q)"
proof (induction s)
  case Nil
  then show ?case by auto
next
  case (Cons c s)
  show ?case
  proof
    assume "contains (c # s) sub"
    then consider "startswith (c # s) sub" | "contains s sub" by auto
    then show "\<exists>p q. c # s = p @ sub @ q"
    proof cases
      case 1
      then obtain q where "c # s = sub @ q" by (auto simp: startswith_iff)
      then have "c # s = [] @ sub @ q" by simp
      then show ?thesis by blast
    next
      case 2
      with Cons obtain p q where "s = p @ sub @ q" by blast
      then have "c # s = (c # p) @ sub @ q" by simp
      then show ?thesis by blast
    qed
  next
    assume "\<exists>p q. c # s = p @ sub @ q"
    then obtain p q where pq: "c # s = p @ sub @ q" by blast
    show "contains (c # s) sub"
    proof (cases p)
      case Nil
      with pq have "startswith (c # s) sub" by (auto simp: startswith_iff)
      then show ?thesis by simp
    next
      case (Cons d p')
      with pq have "s = p' @ sub @ q" by simp
      with Cons.IH have "contains s sub" by blast
      then show ?thesis by simp
    qed
  qed
qed

lemma fst_origin_step: "fst (origin_step origin xs t) = step_result origin_filter origin xs"
  by (simp add: origin_step_def step_result_def split: option.splits sum.splits)

lemma fst_destination_step:
  "fst (destination_step destination xs t) = step_result destination_filter destination xs"
  by (simp add: destination_step_def step_result_def split: option.splits sum.splits)

lemma fst_equipment_type_step:
  "fst (equipment_type_step equipment_type xs t) =
     step_result equipment_type_filter equipment_type xs"
  by (simp add: equipment_type_step_def step_result_def split: option.splits sum.splits)

lemma slice_to_Nil: "slice_to [] n = []"
  by (simp add: slice_to_def)

lemma fst_filter_and_limit:
  "fst (filter_and_limit xs origin destination equipment_type n t) =
     (case step_result origin_filter origin xs of
        Inl e \<Rightarrow> Inl e
      | Inr r1 \<Rightarrow>
          (case step_result destination_filter destination r1 of
             Inl e \<Rightarrow> Inl e
           | Inr r2 \<Rightarrow>
               (case step_result equipment_type_filter equipment_type r2 of
                  Inl e \<Rightarrow> Inl e
                | Inr r3 \<Rightarrow> Inr (slice_to r3 n))))"
proof -
  obtain a1 t1 where s1: "origin_step origin xs t = (a1, t1)"
    by (cases "origin_step origin xs t")
  then have f1: "step_result origin_filter origin xs = a1"
    using fst_origin_step[of origin xs t] by simp
  show ?thesis
  proof (cases a1)
    case (Inl e)
    with s1 f1 show ?thesis by (simp add: filter_and_limit_def)
  next
    case (Inr r1)
    obtain a2 t2 where s2: "destination_step destination r1 t1 = (a2, t2)"
      by (cases "destination_step destination r1 t1")
    then have f2: "step_result destination_filter destination r1 = a2"
      using fst_destination_step[of destination r1 t1] by simp
    show ?thesis
    proof (cases a2)
      case (Inl e)
      with s1 f1 s2 f2 \<open>a1 = Inr r1\<close> show ?thesis by (simp add: filter_and_limit_def)
    next
      case (Inr r2)
      obtain a3 t3 where s3: "equipment_type_step equipment_type r2 t2 = (a3, t3)"
        by (cases "equipment_type_step equipment_type r2 t2")
      then have f3: "step_result equipment_type_filter equipment_type r2 = a3"
        using fst_equipment_type_step[of equipment_type r2 t2] by simp
      show ?thesis
      proof (cases a3)
        case (Inl e)
        with s1 f1 s2 f2 s3 f3 \<open>a1 = Inr r1\<close> \<open>a2 = Inr r2\<close> show ?thesis
          by (simp add: filter_and_limit_def)
      next
        case (Inr r3)
        with s1 f1 s2 f2 s3 f3 \<open>a1 = Inr r1\<close> \<open>a2 = Inr r2\<close> show ?thesis
          by (simp add: filter_and_limit_def Let_def slice_to_Nil)
      qed
    qed
  qed
qed

lemma filter_loads_defined:
  "filter_loads p xs = Inr ys \<Longrightarrow> \<forall>x\<in>set xs. \<exists>b. p x = Inr b"
  by (induction xs arbitrary: ys) (auto split: sum.splits)

lemma filter_loads_all:
  assumes "filter_loads p xs = Inr ys" and "\<And>x b. p x = Inr b \<Longrightarrow> b"
  shows "ys = xs"
proof -
  have "\<forall>x\<in>set xs. p x = Inr True"
    using filter_loads_defined[OF assms(1)] assms(2) by fastforce
  then show ?thesis using filter_loads_Inr[OF assms(1)] by simp
qed

lemma origin_filter_blank:
  assumes "\<forall>c\<in>set ws. isspace_char c" and "origin_filter ws xs = Inr ys"
  shows "ys = xs"
proof (rule filter_loads_all)
  show "filter_loads (origin_cond []) xs = Inr ys"
    using assms by (simp add: origin_filter_def strip_lower_blank)
  show "b" if "origin_cond [] x = Inr b" for x b
    using that by (auto simp: origin_cond_def contains_Nil split: sum.splits)
qed

lemma destination_filter_blank:
  assumes "\<forall>c\<in>set ws. isspace_char c" and "destination_filter ws xs = Inr ys"
  shows "ys = xs"
proof (rule filter_loads_all)
  show "filter_loads (destination_cond []) xs = Inr ys"
    using assms by (simp add: destination_filter_def strip_lower_blank)
  show "b" if "destination_cond [] x = Inr b" for x b
    using that by (auto simp: destination_cond_def contains_Nil split: sum.splits)
qed

lemma step_result_blank_origin:
  assumes "\<forall>c\<in>set ws. isspace_char c" and "step_result origin_filter (Some ws) xs = Inr ys"
  shows "ys = xs"
  using assms origin_filter_blank by (auto simp: step_result_def split: if_splits)

lemma step_result_blank_destination:
  assumes "\<forall>c\<in>set ws. isspace_char c"
    and "step_result destination_filter (Some ws) xs = Inr ys"
  shows "ys = xs"
  using assms destination_filter_blank by (auto simp: step_result_def split: if_splits)

section \<open>Properties of the gate, the loader and the load search\<close>

lemma gate_closed:
  assumes "verify_api_key cfg authorization = Inl e"
  shows "verify_carrier cfg coerce client_get mc authorization = (Inl e, [])"
    and "search_loads cfg source origin destination equipment_type n authorization = (Inl e, [])"
  using assms by (simp_all add: verify_carrier_def search_loads_def)

text \<open>
  C8. A request to a protected operation (verification or load search) whose credential
  header is absent, or is not of the form \<open>ApiKey <token>\<close>, or whose token is not the
  configured secret, is rejected with status 403, and the rejected call has done nothing
  else: its trace is empty, so no file was read and no request was sent.
\<close>

theorem C8_bad_credential_rejected:
  assumes "authorization = None
     \<or> (\<forall>token. authorization \<noteq> Some (''ApiKey '' @ token))
     \<or> (\<exists>token. authorization = Some (''ApiKey '' @ token) \<and> token \<noteq> API_KEY cfg)"
  shows "\<exists>d. verify_carrier cfg coerce client_get mc authorization
                = (Inl (HTTPException 403 d), [])
            \<and> search_loads cfg source origin destination equipment_type n authorization
                = (Inl (HTTPException 403 d), [])"
proof -
  from assms have "authorization \<noteq> Some (''ApiKey '' @ API_KEY cfg)" by auto
  then have "verify_api_key cfg authorization \<noteq> Inr ()"
    by (simp add: verify_api_key_accepts)
  from verify_api_key_rejects[OF this] obtain d
    where "verify_api_key cfg authorization = Inl (HTTPException 403 d)" by blast
  from gate_closed[OF this] show ?thesis by blast
qed

theorem C8_bad_credential_rejected_witness:
  "verify_carrier \<lparr>API_KEY = ''secret'', FMCSA_API_KEY = ''webkey''\<rparr> (\<lambda>v. None)
       (\<lambda>url params. Raises TimeoutException) ''123456'' (Some ''ApiKey guess'')
     = (Inl (HTTPException 403 (Text ''Invalid API Key'')), [])
   \<and> search_loads \<lparr>API_KEY = ''secret'', FMCSA_API_KEY = ''webkey''\<rparr> Missing
       None None None 5 (Some ''ApiKey guess'')
     = (Inl (HTTPException 403 (Text ''Invalid API Key'')), [])"
  using C8_bad_credential_rejected[where authorization = "Some ''ApiKey guess''"
      and cfg = "\<lparr>API_KEY = ''secret'', FMCSA_API_KEY = ''webkey''\<rparr>"
      and coerce = "\<lambda>v. None" and client_get = "\<lambda>url params. Raises TimeoutException"
      and mc = "''123456''" and source = Missing and origin = None and destination = None
      and equipment_type = None and n = 5]
  by (simp add: verify_carrier_def search_loads_def verify_api_key_def split_first_def)

lemma load_loads_from_file_returns: "\<exists>loads. fst (load_loads_from_file source) = Inr loads"
  by (cases source)
    (auto simp: load_loads_from_file_def read_loads_def path_exists_def split: sum.splits)

lemma search_loads_empty_catalog:
  assumes "verify_api_key cfg authorization = Inr ()"
    and "fst (load_loads_from_file source) = Inr (JArr [])"
  shows "fst (search_loads cfg source origin destination equipment_type n authorization) = Inr []"
  using assms by (cases "load_loads_from_file source") (simp add: search_loads_def)

text \<open>
  C9. The catalog loader never raises. When the source is absent it returns the empty
  list; when the source is there but opening or parsing it raises, it returns the empty
  list and prints the error. The load search of an authenticated caller over an absent,
  unreadable or unparsable source returns the empty list.
\<close>

theorem C9_loader_fails_open:
  "(\<exists>loads. fst (load_loads_from_file source) = Inr loads)
   \<and> load_loads_from_file Missing
       = (Inr (JArr []), [Path_exists LOADS_FILE, Print (Warning_not_found LOADS_FILE)])
   \<and> (\<forall>e. fst (read_loads source) = Inl e \<and> path_exists source \<longrightarrow>
         fst (load_loads_from_file source) = Inr (JArr [])
         \<and> Print (Error_loading LOADS_FILE e) \<in> set (snd (load_loads_from_file source)))
   \<and> fst (read_loads Unreadable) = Inl OSError
   \<and> fst (read_loads Not_JSON) = Inl JSONDecodeError
   \<and> (verify_api_key cfg authorization = Inr () \<and> source \<in> {Missing, Unreadable, Not_JSON} \<longrightarrow>
         fst (search_loads cfg source origin destination equipment_type n authorization) = Inr [])"
proof -
  have a: "\<exists>loads. fst (load_loads_from_file source) = Inr loads"
    by (rule load_loads_from_file_returns)
  have b: "load_loads_from_file Missing
       = (Inr (JArr []), [Path_exists LOADS_FILE, Print (Warning_not_found LOADS_FILE)])"
    by (simp add: load_loads_from_file_def path_exists_def)
  have c: "fst (load_loads_from_file source) = Inr (JArr [])
         \<and> Print (Error_loading LOADS_FILE e) \<in> set (snd (load_loads_from_file source))"
    if "fst (read_loads source) = Inl e" "path_exists source" for e
    using that by (cases "read_loads source") (simp add: load_loads_from_file_def)
  have d: "fst (read_loads Unreadable) = Inl OSError" "fst (read_loads Not_JSON) = Inl JSONDecodeError"
    by (simp_all add: read_loads_def)
  have e: "fst (load_loads_from_file source) = Inr (JArr [])"
    if "source \<in> {Missing, Unreadable, Not_JSON}"
    using that by (auto simp: load_loads_from_file_def read_loads_def path_exists_def)
  have f: "fst (search_loads cfg source origin destination equipment_type n authorization) = Inr []"
    if "verify_api_key cfg authorization = Inr ()" "source \<in> {Missing, Unreadable, Not_JSON}"
    using search_loads_empty_catalog[OF that(1) e[OF that(2)]] .
  from a b c d f show ?thesis by blast
qed

theorem C9_loader_fails_open_witness:
  "load_loads_from_file Not_JSON
     = (Inr (JArr []), [Path_exists ''loads.json'', Open_file ''loads.json'',
          Print (Error_loading ''loads.json'' JSONDecodeError)])
   \<and> fst (search_loads \<lparr>API_KEY = ''secret'', FMCSA_API_KEY = []\<rparr> Not_JSON
         (Some ''chicago'') None None 5 (Some ''ApiKey secret'')) = Inr []"
  using C9_loader_fails_open[where source = Not_JSON
      and cfg = "\<lparr>API_KEY = ''secret'', FMCSA_API_KEY = []\<rparr>"
      and authorization = "Some ''ApiKey secret''" and origin = "Some ''chicago''"
      and destination = None and equipment_type = None and n = 5]
  by (simp add: verify_api_key_def split_first_def load_loads_from_file_def read_loads_def
      path_exists_def LOADS_FILE_def)

text \<open>
  A source that parses to a JSON value of another shape is not caught by the loader: a
  non-empty dict is returned as the catalog, and the search over it raises.
\<close>

lemma search_loads_dict_catalog:
  assumes "verify_api_key cfg authorization = Inr ()" and "kv \<noteq> []"
  shows "\<exists>e. fst (search_loads cfg (Contents (JObj kv)) origin destination equipment_type n
                  authorization) = Inl e"
  using assms
  by (simp add: search_loads_def load_loads_from_file_def read_loads_def path_exists_def
      py_len_def)

lemma fst_filter_and_limit_trace:
  "fst (filter_and_limit xs origin destination equipment_type n t) =
   fst (filter_and_limit xs origin destination equipment_type n [])"
  by (simp only: fst_filter_and_limit)

lemma fst_search_loads:
  "fst (search_loads cfg source origin destination equipment_type n authorization) =
     (case verify_api_key cfg authorization of
        Inl x \<Rightarrow> Inl x
      | Inr u \<Rightarrow>
          (case fst (load_loads_from_file source) of
             Inl x \<Rightarrow> Inl x
           | Inr all_loads \<Rightarrow>
               if \<not> truthy all_loads then Inr []
               else
                 (case all_loads of
                    JArr results \<Rightarrow>
                      fst (filter_and_limit results origin destination equipment_type n [])
                  | JObj kv \<Rightarrow>
                      if supplied origin \<or> supplied destination \<or> supplied equipment_type
                      then Inl AttributeError else Inl TypeError
                  | _ \<Rightarrow> Inl AttributeError)))"
proof (cases "verify_api_key cfg authorization")
  case (Inl x)
  then show ?thesis by (simp add: search_loads_def)
next
  case (Inr u)
  obtain r t0 where l: "load_loads_from_file source = (r, t0)"
    by (cases "load_loads_from_file source")
  show ?thesis
  proof (cases r)
    case (Inl x)
    with Inr l show ?thesis by (simp add: search_loads_def)
  next
    case r: (Inr all_loads)
    show ?thesis
    proof (cases all_loads)
      case (JArr results)
      with Inr l r show ?thesis
        using fst_filter_and_limit_trace[of results origin destination equipment_type n t0]
        by (simp add: search_loads_def)
    qed (use Inr l r in \<open>simp_all add: search_loads_def\<close>)
  qed
qed

lemma fst_search_loads_list:
  assumes "verify_api_key cfg authorization = Inr ()"
    and "fst (load_loads_from_file source) = Inr (JArr catalog)"
  shows "fst (search_loads cfg source origin destination equipment_type n authorization) =
         fst (filter_and_limit catalog origin destination equipment_type n [])"
proof (cases catalog)
  case Nil
  with assms show ?thesis
    by (simp add: fst_search_loads fst_filter_and_limit step_result_def origin_filter_def
        destination_filter_def equipment_type_filter_def slice_to_Nil
        split: option.splits)
next
  case (Cons x xs)
  with assms show ?thesis by (simp add: fst_search_loads)
qed

lemma search_loads_authorized:
  "fst (search_loads cfg source origin destination equipment_type n authorization) = Inr rs
   \<Longrightarrow> verify_api_key cfg authorization = Inr ()"
  by (cases "verify_api_key cfg authorization") (simp_all add: fst_search_loads)


lemma fst_search_loads_cong:
  assumes "\<And>xs. fst (filter_and_limit xs origin destination equipment_type n [])
               = fst (filter_and_limit xs origin' destination' equipment_type' n [])"
    and "(supplied origin \<or> supplied destination \<or> supplied equipment_type)
         = (supplied origin' \<or> supplied destination' \<or> supplied equipment_type')"
  shows "fst (search_loads cfg source origin destination equipment_type n authorization)
       = fst (search_loads cfg source origin' destination' equipment_type' n authorization)"
  unfolding fst_search_loads using assms
  by (auto split: sum.splits json.splits)

lemma fst_search_loads_mono:
  assumes "\<And>xs. fst (filter_and_limit xs origin destination equipment_type n []) = Inr rs
               \<Longrightarrow> fst (filter_and_limit xs origin' destination' equipment_type' n []) = Inr rs"
    and "fst (search_loads cfg source origin destination equipment_type n authorization) = Inr rs"
  shows "fst (search_loads cfg source origin' destination' equipment_type' n authorization)
           = Inr rs"
  using assms(2) unfolding fst_search_loads
  by (auto split: sum.splits json.splits if_splits dest: assms(1))

text \<open>
  C10. In the load search a filter parameter given as the empty string gives the same
  result as the parameter left out. An origin or a destination made of whitespace only is
  trimmed to the empty string, which every string contains, so the filter keeps every
  record: whatever the search returns with it, it returns without it.
\<close>

theorem C10_empty_and_blank_parameters:
  "fst (search_loads cfg source (Some []) destination equipment_type n authorization)
     = fst (search_loads cfg source None destination equipment_type n authorization)
   \<and> fst (search_loads cfg source origin (Some []) equipment_type n authorization)
     = fst (search_loads cfg source origin None equipment_type n authorization)
   \<and> fst (search_loads cfg source origin destination (Some []) n authorization)
     = fst (search_loads cfg source origin destination None n authorization)
   \<and> ((\<forall>c\<in>set ws. isspace_char c) \<longrightarrow>
        strip (lower ws) = [] \<and> (\<forall>s. contains s (strip (lower ws))))
   \<and> ((\<forall>c\<in>set ws. isspace_char c)
        \<and> fst (search_loads cfg source (Some ws) destination equipment_type n authorization)
            = Inr rs
      \<longrightarrow> fst (search_loads cfg source None destination equipment_type n authorization)
            = Inr rs)
   \<and> ((\<forall>c\<in>set ws. isspace_char c)
        \<and> fst (search_loads cfg source origin (Some ws) equipment_type n authorization)
            = Inr rs
      \<longrightarrow> fst (search_loads cfg source origin None equipment_type n authorization)
            = Inr rs)"
proof -
  have e1: "fst (search_loads cfg source (Some []) destination equipment_type n authorization)
     = fst (search_loads cfg source None destination equipment_type n authorization)"
    by (rule fst_search_loads_cong)
      (simp_all add: fst_filter_and_limit step_result_def supplied_def cong: sum.case_cong)
  have e2: "fst (search_loads cfg source origin (Some []) equipment_type n authorization)
     = fst (search_loads cfg source origin None equipment_type n authorization)"
    by (rule fst_search_loads_cong)
      (simp_all add: fst_filter_and_limit step_result_def supplied_def cong: sum.case_cong)
  have e3: "fst (search_loads cfg source origin destination (Some []) n authorization)
     = fst (search_loads cfg source origin destination None n authorization)"
    by (rule fst_search_loads_cong)
      (simp_all add: fst_filter_and_limit step_result_def supplied_def cong: sum.case_cong)
  have b0: "strip (lower ws) = [] \<and> (\<forall>s. contains s (strip (lower ws)))"
    if "\<forall>c\<in>set ws. isspace_char c"
    using that by (simp add: strip_lower_blank contains_Nil)
  have b1: "fst (search_loads cfg source None destination equipment_type n authorization) = Inr rs"
    if blank: "\<forall>c\<in>set ws. isspace_char c"
      and ret: "fst (search_loads cfg source (Some ws) destination equipment_type n authorization)
            = Inr rs"
  proof -
    have s: "step_result origin_filter None xs = step_result origin_filter (Some ws) xs"
      if "step_result origin_filter (Some ws) xs = Inr ys" for xs ys
      using step_result_blank_origin[OF blank that] that by (simp add: step_result_def)
    have f: "fst (filter_and_limit xs None destination equipment_type n []) = Inr rs"
      if "fst (filter_and_limit xs (Some ws) destination equipment_type n []) = Inr rs" for xs
    proof (cases "step_result origin_filter (Some ws) xs")
      case (Inl e)
      with that show ?thesis by (simp add: fst_filter_and_limit)
    next
      case (Inr ys)
      from s[OF Inr] that show ?thesis by (simp add: fst_filter_and_limit)
    qed
    from f ret show ?thesis by (rule fst_search_loads_mono)
  qed
  have b2: "fst (search_loads cfg source origin None equipment_type n authorization) = Inr rs"
    if blank: "\<forall>c\<in>set ws. isspace_char c"
      and ret: "fst (search_loads cfg source origin (Some ws) equipment_type n authorization)
            = Inr rs"
  proof -
    have s: "step_result destination_filter None xs = step_result destination_filter (Some ws) xs"
      if "step_result destination_filter (Some ws) xs = Inr ys" for xs ys
      using step_result_blank_destination[OF blank that] that by (simp add: step_result_def)
    have f: "fst (filter_and_limit xs origin None equipment_type n []) = Inr rs"
      if r: "fst (filter_and_limit xs origin (Some ws) equipment_type n []) = Inr rs" for xs
    proof (cases "step_result origin_filter origin xs")
      case (Inl e)
      with r show ?thesis by (simp add: fst_filter_and_limit)
    next
      case r1: (Inr ys)
      show ?thesis
      proof (cases "step_result destination_filter (Some ws) ys")
        case (Inl e)
        with r r1 show ?thesis by (simp add: fst_filter_and_limit)
      next
        case (Inr zs)
        from s[OF Inr] r r1 show ?thesis by (simp add: fst_filter_and_limit)
      qed
    qed
    from f ret show ?thesis by (rule fst_search_loads_mono)
  qed
  from e1 e2 e3 b0 b1 b2 show ?thesis by blast
qed

theorem C10_empty_and_blank_parameters_witness:
  "fst (search_loads \<lparr>API_KEY = ''secret'', FMCSA_API_KEY = []\<rparr>
         (Contents (JArr [JObj [(''origin'', JStr ''Chicago, IL'')],
                          JObj [(''origin'', JStr ''Dallas, TX'')]]))
         (Some ''  '') None None 5 (Some ''ApiKey secret''))
     = Inr [JObj [(''origin'', JStr ''Chicago, IL'')], JObj [(''origin'', JStr ''Dallas, TX'')]]
   \<and> fst (search_loads \<lparr>API_KEY = ''secret'', FMCSA_API_KEY = []\<rparr>
         (Contents (JArr [JObj [(''origin'', JStr ''Chicago, IL'')],
                          JObj [(''origin'', JStr ''Dallas, TX'')]]))
         None None None 5 (Some ''ApiKey secret''))
     = Inr [JObj [(''origin'', JStr ''Chicago, IL'')], JObj [(''origin'', JStr ''Dallas, TX'')]]"
proof -
  have blank: "\<forall>c\<in>set ''  ''. isspace_char c"
    by (simp add: isspace_char_def code_point_def)
  have ret: "fst (search_loads \<lparr>API_KEY = ''secret'', FMCSA_API_KEY = []\<rparr>
         (Contents (JArr [JObj [(''origin'', JStr ''Chicago, IL'')],
                          JObj [(''origin'', JStr ''Dallas, TX'')]]))
         (Some ''  '') None None 5 (Some ''ApiKey secret''))
     = Inr [JObj [(''origin'', JStr ''Chicago, IL'')], JObj [(''origin'', JStr ''Dallas, TX'')]]"
    by code_simp
  from C10_empty_and_blank_parameters[where ws = "''  ''"
      and cfg = "\<lparr>API_KEY = ''secret'', FMCSA_API_KEY = []\<rparr>"
      and source = "Contents (JArr [JObj [(''origin'', JStr ''Chicago, IL'')],
                          JObj [(''origin'', JStr ''Dallas, TX'')]])"
      and destination = None and equipment_type = None and n = 5
      and authorization = "Some ''ApiKey secret''"
      and rs = "[JObj [(''origin'', JStr ''Chicago, IL'')], JObj [(''origin'', JStr ''Dallas, TX'')]]"]
    blank ret
  show ?thesis by blast
qed

lemma field_equals_iff:
  "field_equals key q r \<longleftrightarrow> (\<exists>s. field_text r key = Some s \<and> lower s = strip (lower q))"
  by (simp add: field_equals_def split: option.splits)

lemma field_contains_iff:
  "field_contains key q r \<longleftrightarrow>
     (\<exists>s. field_text r key = Some s \<and> contains (lower s) (strip (lower q)))"
  by (simp add: field_contains_def split: option.splits)

text \<open>
  C3. The equipment-type filter keeps exactly the records whose equipment-type field,
  lowered, equals the lowered and trimmed query; it runs over every list of records whose
  equipment-type fields are strs. Containment is not enough: the lowered
  \<open>Dry Van Plus\<close> contains the lowered query \<open>Dry Van\<close>, and the filter and the search
  drop that record.
\<close>

theorem C3_equipment_type_exact:
  "(equipment_type_filter q results = Inr kept \<longrightarrow>
      kept = filter (\<lambda>r. \<exists>s. field_text r ''equipment_type'' = Some s
                              \<and> lower s = strip (lower q)) results)
   \<and> ((\<forall>r\<in>set results. field_text r ''equipment_type'' \<noteq> None) \<longrightarrow>
        (\<exists>kept. equipment_type_filter q results = Inr kept))
   \<and> contains (lower ''Dry Van Plus'') (strip (lower ''Dry Van''))
   \<and> equipment_type_filter ''Dry Van'' [JObj [(''equipment_type'', JStr ''Dry Van Plus'')]]
       = Inr []
   \<and> fst (search_loads \<lparr>API_KEY = ''secret'', FMCSA_API_KEY = []\<rparr>
           (Contents (JArr [JObj [(''equipment_type'', JStr ''Dry Van Plus'')]]))
           None None (Some ''Dry Van'') 5 (Some ''ApiKey secret'')) = Inr []"
proof -
  have a: "kept = filter (\<lambda>r. \<exists>s. field_text r ''equipment_type'' = Some s
                              \<and> lower s = strip (lower q)) results"
    if "equipment_type_filter q results = Inr kept"
  proof -
    from that have "filter_loads (equipment_type_cond (strip (lower q))) results = Inr kept"
      by (simp add: equipment_type_filter_def)
    from filter_loads_Inr[OF this] show ?thesis
      by (simp add: equipment_type_cond_True field_equals_iff)
  qed
  have b: "\<exists>kept. equipment_type_filter q results = Inr kept"
    if "\<forall>r\<in>set results. field_text r ''equipment_type'' \<noteq> None"
  proof -
    have "\<forall>r\<in>set results. \<exists>b. equipment_type_cond (strip (lower q)) r = Inr b"
      using that by (auto simp: equipment_type_cond_def field_lower_text split: option.splits)
    from filter_loads_total[OF this] show ?thesis by (simp add: equipment_type_filter_def)
  qed
  have c: "contains (lower ''Dry Van Plus'') (strip (lower ''Dry Van''))"
    by code_simp
  have d: "equipment_type_filter ''Dry Van'' [JObj [(''equipment_type'', JStr ''Dry Van Plus'')]]
       = Inr []"
    by code_simp
  have e: "fst (search_loads \<lparr>API_KEY = ''secret'', FMCSA_API_KEY = []\<rparr>
           (Contents (JArr [JObj [(''equipment_type'', JStr ''Dry Van Plus'')]]))
           None None (Some ''Dry Van'') 5 (Some ''ApiKey secret'')) = Inr []"
    by code_simp
  from a b c d e show ?thesis by blast
qed

theorem C3_equipment_type_exact_witness:
  "equipment_type_filter '' dry VAN ''
       [JObj [(''equipment_type'', JStr ''Dry Van'')],
        JObj [(''equipment_type'', JStr ''Dry Van Plus'')],
        JObj [(''equipment_type'', JStr ''Reefer'')]]
     = Inr [JObj [(''equipment_type'', JStr ''Dry Van'')]]
   \<and> [JObj [(''equipment_type'', JStr ''Dry Van'')]]
     = filter (\<lambda>r. \<exists>s. field_text r ''equipment_type'' = Some s
                          \<and> lower s = strip (lower '' dry VAN ''))
         [JObj [(''equipment_type'', JStr ''Dry Van'')],
          JObj [(''equipment_type'', JStr ''Dry Van Plus'')],
          JObj [(''equipment_type'', JStr ''Reefer'')]]"
proof -
  have ret: "equipment_type_filter '' dry VAN ''
       [JObj [(''equipment_type'', JStr ''Dry Van'')],
        JObj [(''equipment_type'', JStr ''Dry Van Plus'')],
        JObj [(''equipment_type'', JStr ''Reefer'')]]
     = Inr [JObj [(''equipment_type'', JStr ''Dry Van'')]]"
    by code_simp
  from C3_equipment_type_exact[where q = "'' dry VAN ''"
      and results = "[JObj [(''equipment_type'', JStr ''Dry Van'')],
        JObj [(''equipment_type'', JStr ''Dry Van Plus'')],
        JObj [(''equipment_type'', JStr ''Reefer'')]]"
      and kept = "[JObj [(''equipment_type'', JStr ''Dry Van'')]]"] ret
  show ?thesis by blast
qed

lemma search_loads_Inr:
  assumes "fst (load_loads_from_file source) = Inr (JArr catalog)"
    and "fst (search_loads cfg source origin destination equipment_type n authorization) = Inr rs"
  shows "rs = slice_to (filter (matches origin destination equipment_type) catalog) n"
proof -
  from assms(2) have "verify_api_key cfg authorization = Inr ()"
    by (rule search_loads_authorized)
  from fst_search_loads_list[OF this assms(1)] assms(2)
  have "fst (filter_and_limit catalog origin destination equipment_type n []) = Inr rs"
    by simp
  then show ?thesis by (rule filter_and_limit_Inr)
qed

lemma set_slice_to: "set (slice_to xs n) \<subseteq> set xs"
  by (auto simp: slice_to_def dest: in_set_takeD)

text \<open>
  C2, as stated, fails for a filter given as the empty string: the equipment-type
  parameter \<open>""\<close> is skipped, so a record of equipment type \<open>Dry Van\<close> is returned
  though its lowered field is not equal to the trimmed query.
\<close>

theorem C2_empty_equipment_type_counterexample:
  "fst (search_loads \<lparr>API_KEY = ''secret'', FMCSA_API_KEY = []\<rparr>
         (Contents (JArr [JObj [(''equipment_type'', JStr ''Dry Van'')]]))
         None None (Some []) 5 (Some ''ApiKey secret''))
     = Inr [JObj [(''equipment_type'', JStr ''Dry Van'')]]
   \<and> field_text (JObj [(''equipment_type'', JStr ''Dry Van'')]) ''equipment_type''
       = Some ''Dry Van''
   \<and> lower ''Dry Van'' \<noteq> strip (lower [])"
  by code_simp

text \<open>
  C2, amended. Whenever the load search returns records over a catalog, every returned
  record is a member of the catalog and passes every filter whose parameter is given and
  not empty: origin and destination by containment of the lowered, trimmed query in the
  lowered field, equipment type by equality of the lowered field with the lowered, trimmed
  query. The result is the catalog filtered by these conditions together and then cut, so
  a parameter left out or empty excludes nothing.
\<close>

theorem C2_results_pass_applied_filters:
  assumes "fst (load_loads_from_file source) = Inr (JArr catalog)"
    and "fst (search_loads cfg source origin destination equipment_type n authorization) = Inr rs"
  shows "(\<forall>r\<in>set rs.
            r \<in> set catalog
            \<and> (\<forall>q. origin = Some q \<and> q \<noteq> [] \<longrightarrow>
                 (\<exists>s. field_text r ''origin'' = Some s
                       \<and> contains (lower s) (strip (lower q))))
            \<and> (\<forall>q. destination = Some q \<and> q \<noteq> [] \<longrightarrow>
                 (\<exists>s. field_text r ''destination'' = Some s
                       \<and> contains (lower s) (strip (lower q))))
            \<and> (\<forall>q. equipment_type = Some q \<and> q \<noteq> [] \<longrightarrow>
                 (\<exists>s. field_text r ''equipment_type'' = Some s
                       \<and> lower s = strip (lower q))))
         \<and> rs = slice_to (filter (matches origin destination equipment_type) catalog) n
         \<and> (\<not> supplied origin \<and> \<not> supplied destination \<and> \<not> supplied equipment_type
              \<longrightarrow> rs = slice_to catalog n)"
proof -
  have rs: "rs = slice_to (filter (matches origin destination equipment_type) catalog) n"
    using assms by (rule search_loads_Inr)
  have m: "r \<in> set catalog \<and> matches origin destination equipment_type r" if "r \<in> set rs" for r
    using that set_slice_to[of "filter (matches origin destination equipment_type) catalog" n]
    unfolding rs by auto
  have a: "r \<in> set catalog
            \<and> (\<forall>q. origin = Some q \<and> q \<noteq> [] \<longrightarrow>
                 (\<exists>s. field_text r ''origin'' = Some s
                       \<and> contains (lower s) (strip (lower q))))
            \<and> (\<forall>q. destination = Some q \<and> q \<noteq> [] \<longrightarrow>
                 (\<exists>s. field_text r ''destination'' = Some s
                       \<and> contains (lower s) (strip (lower q))))
            \<and> (\<forall>q. equipment_type = Some q \<and> q \<noteq> [] \<longrightarrow>
                 (\<exists>s. field_text r ''equipment_type'' = Some s
                       \<and> lower s = strip (lower q)))" if "r \<in> set rs" for r
    using m[OF that]
    by (auto simp: matches_def field_contains_iff field_equals_iff)
  have b: "rs = slice_to catalog n"
    if "\<not> supplied origin \<and> \<not> supplied destination \<and> \<not> supplied equipment_type"
  proof -
    from that have "matches origin destination equipment_type = (\<lambda>r. True)"
      by (auto simp: matches_def supplied_def fun_eq_iff split: option.splits)
    with rs show ?thesis by simp
  qed
  from a rs b show ?thesis by blast
qed

theorem C2_results_pass_applied_filters_witness:
  "fst (search_loads \<lparr>API_KEY = ''secret'', FMCSA_API_KEY = []\<rparr>
         (Contents (JArr
            [JObj [(''origin'', JStr ''Chicago, IL''), (''destination'', JStr ''Dallas, TX''),
                   (''equipment_type'', JStr ''Dry Van'')],
             JObj [(''origin'', JStr ''Dallas, TX''), (''destination'', JStr ''Miami, FL''),
                   (''equipment_type'', JStr ''Reefer'')]]))
         (Some ''chicago'') None (Some ''dry van'') 5 (Some ''ApiKey secret''))
     = Inr [JObj [(''origin'', JStr ''Chicago, IL''), (''destination'', JStr ''Dallas, TX''),
                  (''equipment_type'', JStr ''Dry Van'')]]
   \<and> (\<exists>s. field_text (JObj [(''origin'', JStr ''Chicago, IL''),
                (''destination'', JStr ''Dallas, TX''), (''equipment_type'', JStr ''Dry Van'')])
              ''origin'' = Some s
            \<and> contains (lower s) (strip (lower ''chicago'')))
   \<and> (\<exists>s. field_text (JObj [(''origin'', JStr ''Chicago, IL''),
                (''destination'', JStr ''Dallas, TX''), (''equipment_type'', JStr ''Dry Van'')])
              ''equipment_type'' = Some s
            \<and> lower s = strip (lower ''dry van''))"
proof -
  have l: "fst (load_loads_from_file (Contents (JArr
            [JObj [(''origin'', JStr ''Chicago, IL''), (''destination'', JStr ''Dallas, TX''),
                   (''equipment_type'', JStr ''Dry Van'')],
             JObj [(''origin'', JStr ''Dallas, TX''), (''destination'', JStr ''Miami, FL''),
                   (''equipment_type'', JStr ''Reefer'')]])))
     = Inr (JArr
            [JObj [(''origin'', JStr ''Chicago, IL''), (''destination'', JStr ''Dallas, TX''),
                   (''equipment_type'', JStr ''Dry Van'')],
             JObj [(''origin'', JStr ''Dallas, TX''), (''destination'', JStr ''Miami, FL''),
                   (''equipment_type'', JStr ''Reefer'')]])"
    by code_simp
  have r: "fst (search_loads \<lparr>API_KEY = ''secret'', FMCSA_API_KEY = []\<rparr>
         (Contents (JArr
            [JObj [(''origin'', JStr ''Chicago, IL''), (''destination'', JStr ''Dallas, TX''),
                   (''equipment_type'', JStr ''Dry Van'')],
             JObj [(''origin'', JStr ''Dallas, TX''), (''destination'', JStr ''Miami, FL''),
                   (''equipment_type'', JStr ''Reefer'')]]))
         (Some ''chicago'') None (Some ''dry van'') 5 (Some ''ApiKey secret''))
     = Inr [JObj [(''origin'', JStr ''Chicago, IL''), (''destination'', JStr ''Dallas, TX''),
                  (''equipment_type'', JStr ''Dry Van'')]]"
    by code_simp
  from C2_results_pass_applied_filters[OF l r] r show ?thesis by simp
qed

lemma subseq_take_filter: "subseq (take k (filter P xs)) xs"
proof -
  have "subseq (take k (filter P xs)) (filter P xs)"
    by (rule prefix_imp_subseq) (rule take_is_prefix)
  moreover have "subseq (filter P xs) xs" by (rule subseq_filter_left)
  ultimately show ?thesis by (rule subseq_order.trans)
qed

text \<open>
  C5. For an authenticated caller, a catalog with M matching records and a cap N from 1
  to 20 (5, the default, is one): whenever the search returns, it returns the first N
  matching records of the catalog, min M N of them, in catalog order; and it does return
  over a catalog of records the filters can read.
\<close>

theorem C5_cap_and_order:
  assumes "verify_api_key cfg authorization = Inr ()"
    and "fst (load_loads_from_file source) = Inr (JArr catalog)"
    and "max_results_valid n"
  shows "(fst (search_loads cfg source origin destination equipment_type n authorization) = Inr rs
            \<longrightarrow> rs = take (nat n) (filter (matches origin destination equipment_type) catalog)
              \<and> length rs
                  = min (length (filter (matches origin destination equipment_type) catalog))
                      (nat n)
              \<and> subseq rs catalog)
       \<and> ((\<forall>r\<in>set catalog. readable r) \<longrightarrow>
            fst (search_loads cfg source origin destination equipment_type n authorization)
              = Inr (take (nat n) (filter (matches origin destination equipment_type) catalog)))
       \<and> max_results_valid max_results_default"
proof -
  from assms(3) have n: "0 \<le> n" by (simp add: max_results_valid_def)
  have a: "rs = take (nat n) (filter (matches origin destination equipment_type) catalog)
              \<and> length rs
                  = min (length (filter (matches origin destination equipment_type) catalog))
                      (nat n)
              \<and> subseq rs catalog"
    if "fst (search_loads cfg source origin destination equipment_type n authorization) = Inr rs"
    for rs
  proof -
    from search_loads_Inr[OF assms(2) that] n
    have rs: "rs = take (nat n) (filter (matches origin destination equipment_type) catalog)"
      by (simp add: slice_to_def)
    then show ?thesis by (simp add: subseq_take_filter)
  qed
  have b: "fst (search_loads cfg source origin destination equipment_type n authorization)
              = Inr (take (nat n) (filter (matches origin destination equipment_type) catalog))"
    if "\<forall>r\<in>set catalog. readable r"
  proof -
    from filter_and_limit_readable[OF that] obtain rs
      where "fst (filter_and_limit catalog origin destination equipment_type n []) = Inr rs"
      by blast
    with fst_search_loads_list[OF assms(1,2)]
    have r: "fst (search_loads cfg source origin destination equipment_type n authorization)
              = Inr rs" by simp
    from a[OF r] r show ?thesis by simp
  qed
  have c: "max_results_valid max_results_default"
    by (simp add: max_results_valid_def max_results_default_def)
  from a b c show ?thesis by blast
qed

theorem C5_cap_and_order_witness:
  "fst (search_loads \<lparr>API_KEY = ''secret'', FMCSA_API_KEY = []\<rparr>
         (Contents (JArr
            [JObj [(''load_id'', JStr ''L1''), (''origin'', JStr ''Chicago, IL'')],
             JObj [(''load_id'', JStr ''L2''), (''origin'', JStr ''Dallas, TX'')],
             JObj [(''load_id'', JStr ''L3''), (''origin'', JStr ''Chicago, IL'')],
             JObj [(''load_id'', JStr ''L4''), (''origin'', JStr ''Chicago, IL'')]]))
         (Some ''chicago'') None None 2 (Some ''ApiKey secret''))
     = Inr [JObj [(''load_id'', JStr ''L1''), (''origin'', JStr ''Chicago, IL'')],
            JObj [(''load_id'', JStr ''L3''), (''origin'', JStr ''Chicago, IL'')]]
   \<and> length (filter (matches (Some ''chicago'') None None)
            [JObj [(''load_id'', JStr ''L1''), (''origin'', JStr ''Chicago, IL'')],
             JObj [(''load_id'', JStr ''L2''), (''origin'', JStr ''Dallas, TX'')],
             JObj [(''load_id'', JStr ''L3''), (''origin'', JStr ''Chicago, IL'')],
             JObj [(''load_id'', JStr ''L4''), (''origin'', JStr ''Chicago, IL'')]]) = 3
   \<and> subseq [JObj [(''load_id'', JStr ''L1''), (''origin'', JStr ''Chicago, IL'')],
              JObj [(''load_id'', JStr ''L3''), (''origin'', JStr ''Chicago, IL'')]]
        [JObj [(''load_id'', JStr ''L1''), (''origin'', JStr ''Chicago, IL'')],
         JObj [(''load_id'', JStr ''L2''), (''origin'', JStr ''Dallas, TX'')],
         JObj [(''load_id'', JStr ''L3''), (''origin'', JStr ''Chicago, IL'')],
         JObj [(''load_id'', JStr ''L4''), (''origin'', JStr ''Chicago, IL'')]]"
proof -
  have a: "verify_api_key \<lparr>API_KEY = ''secret'', FMCSA_API_KEY = []\<rparr> (Some ''ApiKey secret'')
             = Inr ()"
    by code_simp
  have l: "fst (load_loads_from_file (Contents (JArr
            [JObj [(''load_id'', JStr ''L1''), (''origin'', JStr ''Chicago, IL'')],
             JObj [(''load_id'', JStr ''L2''), (''origin'', JStr ''Dallas, TX'')],
             JObj [(''load_id'', JStr ''L3''), (''origin'', JStr ''Chicago, IL'')],
             JObj [(''load_id'', JStr ''L4''), (''origin'', JStr ''Chicago, IL'')]])))
     = Inr (JArr
            [JObj [(''load_id'', JStr ''L1''), (''origin'', JStr ''Chicago, IL'')],
             JObj [(''load_id'', JStr ''L2''), (''origin'', JStr ''Dallas, TX'')],
             JObj [(''load_id'', JStr ''L3''), (''origin'', JStr ''Chicago, IL'')],
             JObj [(''load_id'', JStr ''L4''), (''origin'', JStr ''Chicago, IL'')]])"
    by code_simp
  have v: "max_results_valid 2"
    by (simp add: max_results_valid_def)
  have r: "fst (search_loads \<lparr>API_KEY = ''secret'', FMCSA_API_KEY = []\<rparr>
         (Contents (JArr
            [JObj [(''load_id'', JStr ''L1''), (''origin'', JStr ''Chicago, IL'')],
             JObj [(''load_id'', JStr ''L2''), (''origin'', JStr ''Dallas, TX'')],
             JObj [(''load_id'', JStr ''L3''), (''origin'', JStr ''Chicago, IL'')],
             JObj [(''load_id'', JStr ''L4''), (''origin'', JStr ''Chicago, IL'')]]))
         (Some ''chicago'') None None 2 (Some ''ApiKey secret''))
     = Inr [JObj [(''load_id'', JStr ''L1''), (''origin'', JStr ''Chicago, IL'')],
            JObj [(''load_id'', JStr ''L3''), (''origin'', JStr ''Chicago, IL'')]]"
    by code_simp
  have m: "length (filter (matches (Some ''chicago'') None None)
            [JObj [(''load_id'', JStr ''L1''), (''origin'', JStr ''Chicago, IL'')],
             JObj [(''load_id'', JStr ''L2''), (''origin'', JStr ''Dallas, TX'')],
             JObj [(''load_id'', JStr ''L3''), (''origin'', JStr ''Chicago, IL'')],
             JObj [(''load_id'', JStr ''L4''), (''origin'', JStr ''Chicago, IL'')]]) = 3"
    by code_simp
  from C5_cap_and_order[OF a l v, where origin = "Some ''chicago''" and destination = None
      and equipment_type = None
      and rs = "[JObj [(''load_id'', JStr ''L1''), (''origin'', JStr ''Chicago, IL'')],
            JObj [(''load_id'', JStr ''L3''), (''origin'', JStr ''Chicago, IL'')]]"] r m
  show ?thesis by blast
qed

section \<open>Properties of carrier verification\<close>

lemma strip_no_space:
  assumes "\<forall>c\<in>set s. \<not> isspace_char c"
  shows "strip s = s"
proof -
  have d: "dropWhile isspace_char xs = xs" if "\<forall>c\<in>set xs. \<not> isspace_char c" for xs
    using that by (cases xs) auto
  from assms have "dropWhile isspace_char s = s" by (rule d)
  moreover from assms have "dropWhile isspace_char (rev s) = rev s" by (intro d) simp
  ultimately show ?thesis by (simp add: strip_def)
qed

lemma decimal_digit_char:
  assumes "c \<in> set ''0123456789''"
  shows "isdigit_char c" and "\<not> isspace_char c"
  using assms by (auto simp: isdigit_char_def isspace_char_def code_point_def)

lemma decimal_digits:
  assumes "mc \<noteq> []" and "\<forall>c\<in>set mc. c \<in> set ''0123456789''"
  shows "isdigit (strip mc)"
proof -
  from assms(2) have "\<forall>c\<in>set mc. \<not> isspace_char c" using decimal_digit_char(2) by blast
  then have "strip mc = mc" by (rule strip_no_space)
  moreover from assms(2) have "list_all isdigit_char mc"
    using decimal_digit_char(1) by (auto simp: list_all_iff)
  ultimately show ?thesis using assms(1) by (simp add: isdigit_def)
qed

lemma isdigit_iff: "isdigit s \<longleftrightarrow> s \<noteq> [] \<and> (\<forall>c\<in>set s. isdigit_char c)"
  by (simp add: isdigit_def list_all_iff)

lemma verify_carrier_bad_format:
  assumes "verify_api_key cfg authorization = Inr ()" and "\<not> isdigit (strip mc)"
  shows "verify_carrier cfg coerce client_get mc authorization
           = (Inr (not_eligible (strip mc) ''Invalid MC number format''), [])"
  using assms by (simp add: verify_carrier_def Let_def)

lemma verify_carrier_not_configured:
  assumes "verify_api_key cfg authorization = Inr ()" and "isdigit (strip mc)"
    and "FMCSA_API_KEY cfg = []"
  shows "verify_carrier cfg coerce client_get mc authorization
           = (Inl (HTTPException 500 (Text
                ''FMCSA API key not configured. Set FMCSA_API_KEY environment variable.'')), [])"
  using assms by (simp add: verify_carrier_def Let_def)

lemma verify_carrier_calls:
  assumes "verify_api_key cfg authorization = Inr ()" and "isdigit (strip mc)"
    and "FMCSA_API_KEY cfg \<noteq> []"
  shows "verify_carrier cfg coerce client_get mc authorization
           = call_fmcsa cfg coerce client_get (strip mc)"
  using assms by (simp add: verify_carrier_def Let_def)

text \<open>
  C4, as stated, fails for an identifier with surrounding whitespace: the handler strips
  the identifier before it tests it, so \<open>" 123"\<close>, which contains a space, is looked up
  in the registry as \<open>123\<close> when the registry credential is configured, and fails with
  status 500 when it is not.
\<close>

theorem C4_surrounding_whitespace_counterexample:
  "CHR '' '' \<in> set '' 123''
   \<and> CHR '' '' \<notin> set ''0123456789''
   \<and> verify_carrier \<lparr>API_KEY = ''secret'', FMCSA_API_KEY = ''webkey''\<rparr> (\<lambda>v. None)
        (\<lambda>url params. Response 404 [] None) '' 123'' (Some ''ApiKey secret'')
     = (Inr \<lparr>mc_number = ''123'', is_eligible = False, company_name = None,
             safety_rating = None, operating_status = None,
             message = ''Carrier not found in FMCSA database''\<rparr>,
        [Print (Debug_calling ''https://mobile.fmcsa.dot.gov/qc/services/carriers/123''),
         Print (Debug_api_key ''webkey''),
         Http_get ''https://mobile.fmcsa.dot.gov/qc/services/carriers/123''
           [(''webKey'', ''webkey'')],
         Print (Debug_response_status 404), Print (Debug_response_body [])])
   \<and> verify_carrier \<lparr>API_KEY = ''secret'', FMCSA_API_KEY = []\<rparr> (\<lambda>v. None)
        (\<lambda>url params. Response 404 [] None) '' 123'' (Some ''ApiKey secret'')
     = (Inl (HTTPException 500 (Text
          ''FMCSA API key not configured. Set FMCSA_API_KEY environment variable.'')), [])"
  by code_simp

text \<open>
  C4, amended. For an authenticated caller and every carrier identifier that, stripped of
  surrounding whitespace, is empty or contains a character \<open>str.isdigit\<close> refuses,
  verification returns a verdict with \<open>is_eligible\<close> false and the message
  \<open>Invalid MC number format\<close>; the call sends no request to the registry and prints
  nothing, whatever the registry credential is, also when it is not configured.
\<close>

theorem C4_malformed_identifier_rejected:
  assumes "verify_api_key cfg authorization = Inr ()"
    and "strip mc = [] \<or> (\<exists>c\<in>set (strip mc). \<not> isdigit_char c)"
  shows "\<exists>v. verify_carrier cfg coerce client_get mc authorization = (Inr v, [])
             \<and> \<not> is_eligible v \<and> message v = ''Invalid MC number format''
             \<and> mc_number v = strip mc"
proof -
  from assms(2) have "\<not> isdigit (strip mc)" by (auto simp: isdigit_iff)
  from verify_carrier_bad_format[OF assms(1) this] show ?thesis
    by (simp add: not_eligible_def)
qed

theorem C4_malformed_identifier_rejected_witness:
  "verify_carrier \<lparr>API_KEY = ''secret'', FMCSA_API_KEY = []\<rparr> (\<lambda>v. None)
        (\<lambda>url params. Raises TimeoutException) ''MC-123'' (Some ''ApiKey secret'')
     = (Inr \<lparr>mc_number = ''MC-123'', is_eligible = False, company_name = None,
             safety_rating = None, operating_status = None,
             message = ''Invalid MC number format''\<rparr>, [])"
proof -
  have a: "verify_api_key \<lparr>API_KEY = ''secret'', FMCSA_API_KEY = []\<rparr> (Some ''ApiKey secret'')
             = Inr ()"
    by code_simp
  have s: "strip ''MC-123'' = ''MC-123''"
    by code_simp
  have b: "strip ''MC-123'' = [] \<or> (\<exists>c\<in>set (strip ''MC-123''). \<not> isdigit_char c)"
    unfolding s by (simp add: isdigit_char_def code_point_def)
  from C4_malformed_identifier_rejected[OF a b, where coerce = "\<lambda>v. None"
      and client_get = "\<lambda>url params. Raises TimeoutException"]
  obtain v where v: "verify_carrier \<lparr>API_KEY = ''secret'', FMCSA_API_KEY = []\<rparr> (\<lambda>v. None)
        (\<lambda>url params. Raises TimeoutException) ''MC-123'' (Some ''ApiKey secret'') = (Inr v, [])"
    by blast
  moreover have "verify_carrier \<lparr>API_KEY = ''secret'', FMCSA_API_KEY = []\<rparr> (\<lambda>v. None)
        (\<lambda>url params. Raises TimeoutException) ''MC-123'' (Some ''ApiKey secret'')
     = (Inr \<lparr>mc_number = ''MC-123'', is_eligible = False, company_name = None,
             safety_rating = None, operating_status = None,
             message = ''Invalid MC number format''\<rparr>, [])"
    by code_simp
  ultimately show ?thesis by simp
qed

text \<open>
  C6, as stated, fails on the text of the message: for a registry answer 404 the verdict
  carries \<open>Carrier not found in FMCSA database\<close>, not \<open>carrier not found\<close>.
\<close>

theorem C6_message_counterexample:
  "fst (verify_carrier \<lparr>API_KEY = ''secret'', FMCSA_API_KEY = ''webkey''\<rparr> (\<lambda>v. None)
        (\<lambda>url params. Response 404 [] None) ''999999'' (Some ''ApiKey secret''))
     = Inr \<lparr>mc_number = ''999999'', is_eligible = False, company_name = None,
             safety_rating = None, operating_status = None,
             message = ''Carrier not found in FMCSA database''\<rparr>
   \<and> ''Carrier not found in FMCSA database'' \<noteq> ''carrier not found''"
  by code_simp

text \<open>
  C6, amended. For an authenticated caller, a valid identifier and a configured registry
  credential, when the registry answers 404 the verification returns (it does not raise)
  the verdict with \<open>is_eligible\<close> false and the message
  \<open>Carrier not found in FMCSA database\<close>.
\<close>

theorem C6_not_found_verdict:
  assumes "verify_api_key cfg authorization = Inr ()"
    and "isdigit (strip mc)"
    and "FMCSA_API_KEY cfg \<noteq> []"
    and "client_get (FMCSA_API_BASE @ ''/carriers/'' @ strip mc)
           [(''webKey'', FMCSA_API_KEY cfg)] = Response 404 txt body"
  shows "fst (verify_carrier cfg coerce client_get mc authorization)
           = Inr \<lparr>mc_number = strip mc, is_eligible = False, company_name = None,
                  safety_rating = None, operating_status = None,
                  message = ''Carrier not found in FMCSA database''\<rparr>"
proof -
  have "interpret_response coerce (strip mc) 404 txt body
          = Inr (not_eligible (strip mc) ''Carrier not found in FMCSA database'')"
    by (simp add: interpret_response_def)
  with assms(4) have "fst (call_fmcsa cfg coerce client_get (strip mc))
          = Inr (not_eligible (strip mc) ''Carrier not found in FMCSA database'')"
    by (simp add: call_fmcsa_def Let_def)
  with verify_carrier_calls[OF assms(1-3)] show ?thesis
    by (simp add: not_eligible_def)
qed

theorem C6_not_found_verdict_witness:
  "fst (verify_carrier \<lparr>API_KEY = ''secret'', FMCSA_API_KEY = ''webkey''\<rparr> (\<lambda>v. None)
        (\<lambda>url params. Response 404 ''Not Found'' None) ''999999'' (Some ''ApiKey secret''))
     = Inr \<lparr>mc_number = ''999999'', is_eligible = False, company_name = None,
             safety_rating = None, operating_status = None,
             message = ''Carrier not found in FMCSA database''\<rparr>"
proof -
  have a: "verify_api_key \<lparr>API_KEY = ''secret'', FMCSA_API_KEY = ''webkey''\<rparr>
             (Some ''ApiKey secret'') = Inr ()"
    by code_simp
  have s: "strip ''999999'' = ''999999''"
    by code_simp
  have d: "isdigit (strip ''999999'')"
    by code_simp
  have k: "FMCSA_API_KEY \<lparr>API_KEY = ''secret'', FMCSA_API_KEY = ''webkey''\<rparr> \<noteq> []"
    by simp
  have g: "(\<lambda>url params. Response 404 ''Not Found'' None)
           (FMCSA_API_BASE @ ''/carriers/'' @ strip ''999999'')
           [(''webKey'', FMCSA_API_KEY \<lparr>API_KEY = ''secret'', FMCSA_API_KEY = ''webkey''\<rparr>)]
         = Response 404 ''Not Found'' None"
    by simp
  from C6_not_found_verdict[OF a d k g, where coerce = "\<lambda>v. None"] show ?thesis
    unfolding s .
qed

lemma root_returns: "\<exists>m. fst (root source) = Inr m"
  by (cases source)
    (auto simp: root_def load_loads_from_file_def read_loads_def path_exists_def py_len_def
      split: sum.splits json.splits)

text \<open>
  C7. When the registry credential is not configured, verification of a non-empty
  identifier of decimal digits by an authenticated caller fails with status 500 and the
  configuration message, without a verdict and without a request to the registry. Loading
  the configuration with the variable unset gives the empty credential and nothing more;
  the load search does not depend on the credential, and the root endpoint always answers.
\<close>

theorem C7_registry_credential_missing:
  assumes "verify_api_key cfg authorization = Inr ()"
    and "FMCSA_API_KEY cfg = []"
    and "mc \<noteq> []" and "\<forall>c\<in>set mc. c \<in> set ''0123456789''"
  shows "verify_carrier cfg coerce client_get mc authorization
           = (Inl (HTTPException 500 (Text
                ''FMCSA API key not configured. Set FMCSA_API_KEY environment variable.'')), [])
       \<and> (environ ''FMCSA_API_KEY'' = None \<longrightarrow> FMCSA_API_KEY (load_config environ) = [])
       \<and> search_loads (cfg\<lparr>FMCSA_API_KEY := k\<rparr>) source origin destination equipment_type n
             authorization
           = search_loads cfg source origin destination equipment_type n authorization
       \<and> (\<exists>m. fst (root source) = Inr m)"
proof -
  have a: "verify_carrier cfg coerce client_get mc authorization
           = (Inl (HTTPException 500 (Text
                ''FMCSA API key not configured. Set FMCSA_API_KEY environment variable.'')), [])"
    using verify_carrier_not_configured[OF assms(1) decimal_digits[OF assms(3,4)] assms(2)] .
  have b: "FMCSA_API_KEY (load_config environ) = []" if "environ ''FMCSA_API_KEY'' = None"
    using that by (simp add: load_config_def getenv_def)
  have "verify_api_key (cfg\<lparr>FMCSA_API_KEY := k\<rparr>) authorization
          = verify_api_key cfg authorization"
    by (simp add: verify_api_key_def Let_def split: option.splits)
  then have c: "search_loads (cfg\<lparr>FMCSA_API_KEY := k\<rparr>) source origin destination
             equipment_type n authorization
           = search_loads cfg source origin destination equipment_type n authorization"
    by (simp add: search_loads_def)
  from a b c root_returns show ?thesis by blast
qed

theorem C7_registry_credential_missing_witness:
  "verify_carrier (load_config [''HAPPYROBOT_API_KEY'' \<mapsto> ''secret'']) (\<lambda>v. None)
       (\<lambda>url params. Raises TimeoutException) ''123456'' (Some ''ApiKey secret'')
     = (Inl (HTTPException 500 (Text
          ''FMCSA API key not configured. Set FMCSA_API_KEY environment variable.'')), [])"
proof -
  have c: "load_config [''HAPPYROBOT_API_KEY'' \<mapsto> ''secret'']
             = \<lparr>API_KEY = ''secret'', FMCSA_API_KEY = []\<rparr>"
    by (simp add: load_config_def getenv_def)
  have a: "verify_api_key (load_config [''HAPPYROBOT_API_KEY'' \<mapsto> ''secret''])
             (Some ''ApiKey secret'') = Inr ()"
    unfolding c by code_simp
  have k: "FMCSA_API_KEY (load_config [''HAPPYROBOT_API_KEY'' \<mapsto> ''secret'']) = []"
    unfolding c by simp
  have n: "''123456'' \<noteq> []" by simp
  have d: "\<forall>c\<in>set ''123456''. c \<in> set ''0123456789''" by simp
  from C7_registry_credential_missing[OF a k n d] show ?thesis by blast
qed

lemma carrier_verdict_fields:
  assumes "carrier_verdict coerce mc carrier = Inr v"
  shows "is_eligible v
           = (dict_get carrier ''allowedToOperate'' (JStr ''N'') = JStr ''Y''
              \<and> dict_get carrier ''oosDate'' JNull = JNull)"
    and "operating_status v
           = Some (if truthy (dict_get carrier ''oosDate'' JNull) then ''Out of Service''
                   else if dict_get carrier ''allowedToOperate'' (JStr ''N'') = JStr ''Y''
                   then ''Active'' else ''Not Authorized'')"
  using assms by (auto simp: carrier_verdict_def Let_def split: sum.splits)

text \<open>
  C1. For a registry answer 200 whose carrier has \<open>allowedToOperate\<close> \<open>Y\<close> and an
  \<open>oosDate\<close> that is present and is the empty string, the verdict has \<open>is_eligible\<close>
  false, since the date is not \<open>None\<close>, and \<open>operating_status\<close> \<open>Active\<close>, since the
  date is falsy: the status is not \<open>Out of Service\<close> though an out-of-service date is
  present.
\<close>

theorem C1_empty_oos_date_status:
  "fst (verify_carrier \<lparr>API_KEY = ''secret'', FMCSA_API_KEY = ''webkey''\<rparr> (\<lambda>v. None)
        (\<lambda>url params. Response 200 txt
           (Some (JObj [(''content'', JObj [(''carrier'',
              JObj [(''legalName'', JStr ''ABC Trucking LLC''),
                    (''allowedToOperate'', JStr ''Y''),
                    (''oosDate'', JStr [])])])])))
        ''123456'' (Some ''ApiKey secret''))
     = Inr \<lparr>mc_number = ''123456'', is_eligible = False,
             company_name = Some ''ABC Trucking LLC'', safety_rating = None,
             operating_status = Some ''Active'',
             message = ''Carrier is not eligible to operate''\<rparr>"
proof -
  have a: "verify_api_key \<lparr>API_KEY = ''secret'', FMCSA_API_KEY = ''webkey''\<rparr>
             (Some ''ApiKey secret'') = Inr ()"
    by code_simp
  have d: "isdigit (strip ''123456'')" and s: "strip ''123456'' = ''123456''"
    by code_simp+
  have v: "carrier_verdict (\<lambda>v. None) ''123456''
             [(''legalName'', JStr ''ABC Trucking LLC''), (''allowedToOperate'', JStr ''Y''),
              (''oosDate'', JStr [])]
           = Inr \<lparr>mc_number = ''123456'', is_eligible = False,
             company_name = Some ''ABC Trucking LLC'', safety_rating = None,
             operating_status = Some ''Active'',
             message = ''Carrier is not eligible to operate''\<rparr>"
    by code_simp
  have i: "interpret_response (\<lambda>v. None) ''123456'' 200 txt
             (Some (JObj [(''content'', JObj [(''carrier'',
              JObj [(''legalName'', JStr ''ABC Trucking LLC''),
                    (''allowedToOperate'', JStr ''Y''),
                    (''oosDate'', JStr [])])])]))
           = Inr \<lparr>mc_number = ''123456'', is_eligible = False,
             company_name = Some ''ABC Trucking LLC'', safety_rating = None,
             operating_status = Some ''Active'',
             message = ''Carrier is not eligible to operate''\<rparr>"
    unfolding v[symmetric] by (simp add: interpret_response_def dict_get_def)
  have k: "FMCSA_API_KEY \<lparr>API_KEY = ''secret'', FMCSA_API_KEY = ''webkey''\<rparr> \<noteq> []"
    by simp
  show ?thesis
    unfolding verify_carrier_calls[OF a d k] s
    by (simp add: call_fmcsa_def Let_def i)
qed

lemma verify_carrier_verdict_fields:
  assumes "verify_api_key cfg authorization = Inr ()"
    and "isdigit (strip mc)"
    and "FMCSA_API_KEY cfg \<noteq> []"
    and "client_get (FMCSA_API_BASE @ ''/carriers/'' @ strip mc)
           [(''webKey'', FMCSA_API_KEY cfg)] = Response 200 txt (Some (JObj data))"
    and "dict_get data ''content'' (JObj []) = JObj content" and "content \<noteq> []"
    and "dict_get content ''carrier'' (JObj []) = JObj carrier" and "carrier \<noteq> []"
    and "fst (verify_carrier cfg coerce client_get mc authorization) = Inr v"
  shows "is_eligible v
           = (dict_get carrier ''allowedToOperate'' (JStr ''N'') = JStr ''Y''
              \<and> dict_get carrier ''oosDate'' JNull = JNull)"
    and "operating_status v
           = Some (if truthy (dict_get carrier ''oosDate'' JNull) then ''Out of Service''
                   else if dict_get carrier ''allowedToOperate'' (JStr ''N'') = JStr ''Y''
                   then ''Active'' else ''Not Authorized'')"
proof -
  have i: "interpret_response coerce (strip mc) 200 txt (Some (JObj data))
             = carrier_verdict coerce (strip mc) carrier"
    using assms(5-8) by (simp add: interpret_response_def)
  have h: "fst (handle_exception e t) \<noteq> Inr v" for e t
    by (cases e) (simp_all add: handle_exception_def)
  have "carrier_verdict coerce (strip mc) carrier = Inr v"
  proof (cases "carrier_verdict coerce (strip mc) carrier")
    case (Inl e)
    with assms(4,9) i h show ?thesis
      unfolding verify_carrier_calls[OF assms(1-3)]
      by (simp add: call_fmcsa_def Let_def)
  next
    case (Inr w)
    with assms(4,9) i show ?thesis
      unfolding verify_carrier_calls[OF assms(1-3)]
      by (simp add: call_fmcsa_def Let_def)
  qed
  from carrier_verdict_fields[OF this]
  show "is_eligible v
           = (dict_get carrier ''allowedToOperate'' (JStr ''N'') = JStr ''Y''
              \<and> dict_get carrier ''oosDate'' JNull = JNull)"
    and "operating_status v
           = Some (if truthy (dict_get carrier ''oosDate'' JNull) then ''Out of Service''
                   else if dict_get carrier ''allowedToOperate'' (JStr ''N'') = JStr ''Y''
                   then ''Active'' else ''Not Authorized'')"
    by simp_all
qed

end
